theory Spec2Isabelle
  imports Complex_Main "HOL-Library.Sublist" "HOL-Library.Log_Nat"
begin

section \<open>JavaScript strings and values\<close>

text \<open>
  A JavaScript string is modelled as a \<^typ>\<open>string\<close> whose characters are the code points
  0..255 (Latin-1); the helpers below are the \<open>String.prototype\<close> methods the pages call,
  restricted to that range.
\<close>

definition is_space :: "char \<Rightarrow> bool" where
  \<comment> \<open>\<open>\s\<close> and the characters \<open>trim()\<close> strips: TAB, LF, VT, FF, CR, space, NBSP\<close>
  "is_space c = ((of_char c :: nat) \<in> {9, 10, 11, 12, 13, 32, 160})"

definition is_word :: "char \<Rightarrow> bool" where
  \<comment> \<open>\<open>\w\<close>, that is \<open>[A-Za-z0-9_]\<close>\<close>
  "is_word c = (let n = (of_char c :: nat) in
     (48 \<le> n \<and> n \<le> 57) \<or> (65 \<le> n \<and> n \<le> 90) \<or> n = 95 \<or> (97 \<le> n \<and> n \<le> 122))"

definition trim :: "string \<Rightarrow> string" where
  "trim s = rev (dropWhile is_space (rev (dropWhile is_space s)))"

definition lower_char :: "char \<Rightarrow> char" where
  "lower_char c = (let n = (of_char c :: nat) in
     if (65 \<le> n \<and> n \<le> 90) \<or> (192 \<le> n \<and> n \<le> 222 \<and> n \<noteq> 215)
     then char_of (n + 32) else c)"

definition toLowerCase :: "string \<Rightarrow> string" where
  "toLowerCase s = map lower_char s"

fun startsWith :: "string \<Rightarrow> string \<Rightarrow> bool" where
  "startsWith s [] = True"
| "startsWith [] (p # ps) = False"
| "startsWith (c # cs) (p # ps) = (c = p \<and> startsWith cs ps)"

fun includes_str :: "string \<Rightarrow> string \<Rightarrow> bool" where
  "includes_str [] p = startsWith [] p"
| "includes_str (c # cs) p = (startsWith (c # cs) p \<or> includes_str cs p)"

fun split_on :: "char \<Rightarrow> string \<Rightarrow> string list" where
  \<comment> \<open>\<open>s.split(c)\<close> for a one-character separator\<close>
  "split_on sep [] = [[]]"
| "split_on sep (c # cs) =
     (if c = sep then [] # split_on sep cs
      else (case split_on sep cs of
              [] \<Rightarrow> [[c]]
            | w # ws \<Rightarrow> (c # w) # ws))"

fun join :: "string \<Rightarrow> string list \<Rightarrow> string" where
  "join sep [] = []"
| "join sep [w] = w"
| "join sep (w # v # ws) = w @ sep @ join sep (v # ws)"

definition digit_char :: "nat \<Rightarrow> char" where
  "digit_char d = char_of (48 + d)"

function show_nat :: "nat \<Rightarrow> string" where
  "show_nat n = (if n < 10 then [digit_char n] else show_nat (n div 10) @ [digit_char (n mod 10)])"
  by pat_completeness auto
termination
  by (relation "measure id") auto

declare show_nat.simps [simp del]

definition show_int :: "int \<Rightarrow> string" where
  \<comment> \<open>how a template literal prints an integer-valued number\<close>
  "show_int i = (if i < 0 then CHR ''-'' # show_nat (nat (- i)) else show_nat (nat i))"

datatype json =
    JString string
  | JBool bool
  | JArray "json list"
  | JObject "(string \<times> json) list"

text \<open>
  \<open>localStorage\<close> maps keys to strings. The values the pages store are always the output of
  \<open>JSON.stringify\<close>; a stored value is represented by the JSON document that was printed
  (printing is injective on documents), so the store is a map from keys to \<^typ>\<open>json\<close>.
  \<open>setItem\<close> is taken to succeed: the storage quota is not part of the model. An argument
  of \<open>console.log\<close> is represented by its JSON document as well.
\<close>

type_synonym local_storage = "string \<rightharpoonup> json"

text \<open>The browser globals the pages write to: \<open>localStorage\<close>, the console and \<open>alert\<close>.\<close>

record browser =
  storage :: local_storage
  console :: "(string \<times> json) list"
  alerts :: "string list"

section \<open>JavaScript numbers\<close>

text \<open>
  A JavaScript number is an IEEE 754 double. A finite double is modelled as the rational
  it denotes, and every arithmetic operation as the exact operation followed by
  \<open>double\<close>, the rounding to the nearest double with ties to the even significand:
  53 bits of significand, exponents from \<open>-1022\<close>, subnormals below. No value of the
  program comes near the overflow threshold, so infinities and NaN are left out. Clock
  readings and counts, which are integers far below \<open>2^53\<close>, stay \<^typ>\<open>int\<close> and \<^typ>\<open>nat\<close>.
\<close>

definition round_even :: "rat \<Rightarrow> int" where
  \<comment> \<open>the nearest integer, a tie going to the even one\<close>
  "round_even y =
     (let f = \<lfloor>y\<rfloor>; d = y - of_int f in
      if d < 1 / 2 then f
      else if 1 / 2 < d then f + 1
      else if even f then f else f + 1)"

definition binade :: "rat \<Rightarrow> int" where
  \<comment> \<open>for \<open>x \<noteq> 0\<close>, the \<open>e\<close> with \<open>2^e \<le> |x| < 2^(e+1)\<close>\<close>
  "binade x =
     (if 1 \<le> \<bar>x\<bar> then bitlen \<lfloor>\<bar>x\<bar>\<rfloor> - 1
      else - bitlen (\<lceil>1 / \<bar>x\<bar>\<rceil> - 1))"

definition ulp :: "rat \<Rightarrow> rat" where
  \<comment> \<open>the spacing of the doubles around \<open>x\<close>\<close>
  "ulp x = 2 powi (max (binade x) (- 1022) - 52)"

definition double :: "rat \<Rightarrow> rat" where
  "double x = (if x = 0 then 0 else of_int (round_even (x / ulp x)) * ulp x)"

definition is_double :: "rat \<Rightarrow> bool" where
  "is_double x = (double x = x)"

definition num :: "rat \<Rightarrow> rat" where
  \<comment> \<open>a decimal literal denotes the double nearest to it\<close>
  "num x = double x"

definition js_add :: "rat \<Rightarrow> rat \<Rightarrow> rat" where
  "js_add a b = double (a + b)"

definition js_sub :: "rat \<Rightarrow> rat \<Rightarrow> rat" where
  "js_sub a b = double (a - b)"

definition js_mul :: "rat \<Rightarrow> rat \<Rightarrow> rat" where
  "js_mul a b = double (a * b)"

definition js_div :: "rat \<Rightarrow> rat \<Rightarrow> rat" where
  "js_div a b = double (a / b)"

definition Math_round :: "rat \<Rightarrow> int" where
  \<comment> \<open>\<open>Math.round\<close>: the nearest integer, a tie going up; exact on a double\<close>
  "Math_round x = \<lfloor>x + 1 / 2\<rfloor>"

definition Math_floor :: "rat \<Rightarrow> int" where
  "Math_floor x = \<lfloor>x\<rfloor>"

section \<open>hooks/useNetworkStatus.ts\<close>

record NetworkStatus =
  isOnline :: bool
  isOffline :: bool
  wasOffline :: bool

text \<open>The two \<open>useState\<close> cells of \<open>useNetworkStatus\<close>.\<close>

record network_cells =
  isOnline_cell :: bool
  wasOffline_cell :: bool

definition initial_cells :: network_cells where
  "initial_cells = \<lparr>isOnline_cell = True, wasOffline_cell = False\<rparr>"

text \<open>
  What can touch the cells: the mount effect (which reads \<open>navigator.onLine\<close>), the
  \<open>online\<close> listener (which reads \<open>navigator.onLine\<close> again) and the \<open>offline\<close> listener.
  The value read from \<open>navigator.onLine\<close> is carried by the event.
\<close>

datatype network_event = Mounted bool | Online bool | Offline

fun handle_event :: "network_cells \<Rightarrow> network_event \<Rightarrow> network_cells" where
  "handle_event s (Mounted navigator_onLine) = s\<lparr>isOnline_cell := navigator_onLine\<rparr>"
| "handle_event s (Online navigator_onLine) =
     (let s1 = s\<lparr>isOnline_cell := True\<rparr>
      in if \<not> navigator_onLine then s1\<lparr>wasOffline_cell := True\<rparr> else s1)"
| "handle_event s Offline = s\<lparr>isOnline_cell := False, wasOffline_cell := True\<rparr>"

definition run_events :: "network_cells \<Rightarrow> network_event list \<Rightarrow> network_cells" where
  "run_events s evs = foldl handle_event s evs"

definition useNetworkStatus :: "network_cells \<Rightarrow> NetworkStatus" where
  "useNetworkStatus s =
     \<lparr>isOnline = isOnline_cell s, isOffline = \<not> isOnline_cell s, wasOffline = wasOffline_cell s\<rparr>"

record OfflineCapabilities =
  canScanImages :: bool
  canTranslate :: bool
  canViewDiseases :: bool
  canViewVendors :: bool
  canReportDiseases :: bool
  canUpdateDatabase :: bool
  canAccessMaps :: bool
  canMakePhoneCalls :: bool
  canSendEmails :: bool

definition useOfflineCapabilities :: "network_cells \<Rightarrow> OfflineCapabilities" where
  "useOfflineCapabilities s =
     (let online = isOnline (useNetworkStatus s) in
      \<lparr>canScanImages = True,
       canTranslate = True,
       canViewDiseases = True,
       canViewVendors = True,
       canReportDiseases = online,
       canUpdateDatabase = online,
       canAccessMaps = online,
       canMakePhoneCalls = True,
       canSendEmails = online\<rparr>)"

section \<open>lib/tensorflow.ts\<close>

datatype severity = Low | Medium | High

record DiseaseDetectionResult =
  diseaseId :: string
  diseaseName :: string
  confidence :: rat
  description :: string
  severity :: severity

record ImageAnalysisResult =
  success :: bool
  results :: "DiseaseDetectionResult list"
  error :: "string option"
  processingTime :: int

text \<open>
  The fields of a browser \<open>File\<close> the code reads (\<open>name\<close>, \<open>type\<close>, \<open>size\<close>), and its bytes,
  which the code never reads.
\<close>

record File =
  file_name :: string
  file_type :: string
  file_size :: nat
  file_content :: "nat list"

text \<open>An entry of the local table \<open>diseases\<close> of \<open>analyzeImage\<close>.\<close>

record DiseaseEntry =
  entryId :: string
  entryName :: string
  baseConfidence :: rat
  entrySeverity :: severity

definition diseases :: "DiseaseEntry list" where
  "diseases =
     [\<lparr>entryId = ''d1'', entryName = ''Rice Blast'', baseConfidence = num (85 / 100), entrySeverity = High\<rparr>,
      \<lparr>entryId = ''d2'', entryName = ''Bacterial Leaf Blight'', baseConfidence = num (78 / 100),
        entrySeverity = Medium\<rparr>,
      \<lparr>entryId = ''d3'', entryName = ''Brown Spot'', baseConfidence = num (72 / 100), entrySeverity = Medium\<rparr>,
      \<lparr>entryId = ''d4'', entryName = ''Sheath Blight'', baseConfidence = num (68 / 100), entrySeverity = High\<rparr>,
      \<lparr>entryId = ''d5'', entryName = ''Tungro Virus'', baseConfidence = num (65 / 100), entrySeverity = High\<rparr>]"

text \<open>
  The values of the calls of \<open>Math.random()\<close> that reach the result, one field per call
  site: the table index (line 87, read only when no file-name rule applies), the confidence
  jitter (line 92), the test for a secondary detection (line 106) and its reduction (line
  109). The draw of line 34 only sets the length of the delay. \<open>Math.random()\<close> returns a
  double in \<open>[0, 1)\<close>.
\<close>

record draws =
  pick_draw :: rat
  jitter_draw :: rat
  secondary_draw :: rat
  reduction_draw :: rat

definition unit_interval :: "rat \<Rightarrow> bool" where
  "unit_interval r = (is_double r \<and> 0 \<le> r \<and> r < 1)"

definition random_ok :: "draws \<Rightarrow> bool" where
  "random_ok d =
     (unit_interval (pick_draw d) \<and> unit_interval (jitter_draw d)
      \<and> unit_interval (secondary_draw d) \<and> unit_interval (reduction_draw d))"

definition at_index :: "'a list \<Rightarrow> int \<Rightarrow> 'a option" where
  \<comment> \<open>\<open>xs[i]\<close>: \<open>undefined\<close> (here \<open>None\<close>) outside the array\<close>
  "at_index xs i = (if 0 \<le> i \<and> i < int (length xs) then Some (xs ! nat i) else None)"

text \<open>
  \<open>xs.sort(cmp)\<close>. The standard fixes the result for a consistent comparator: the sorted
  permutation that keeps the order of elements comparing equal. It is computed here by
  stable insertion, from the right.
\<close>

fun insert_by :: "('a \<Rightarrow> 'a \<Rightarrow> rat) \<Rightarrow> 'a \<Rightarrow> 'a list \<Rightarrow> 'a list" where
  "insert_by cmp x [] = [x]"
| "insert_by cmp x (y # ys) =
     (if cmp x y \<le> 0 then x # y # ys else y # insert_by cmp x ys)"

definition array_sort :: "('a \<Rightarrow> 'a \<Rightarrow> rat) \<Rightarrow> 'a list \<Rightarrow> 'a list" where
  "array_sort cmp xs = foldr (insert_by cmp) xs []"

text \<open>What a \<open>throw\<close> inside the \<open>try\<close> block carries; both are instances of \<open>Error\<close>.\<close>

datatype thrown = Error string | TypeError string

fun message :: "thrown \<Rightarrow> string" where
  "message (Error m) = m"
| "message (TypeError m) = m"

definition check_file :: "File \<Rightarrow> thrown + unit" where
  \<comment> \<open>lines 24 to 31: the two checks that open the \<open>try\<close> block\<close>
  "check_file imageFile =
     (if \<not> startsWith (file_type imageFile) ''image/''
      then Inl (Error ''Invalid file type. Please upload an image file.'')
      else if file_size imageFile > 10 * 1024 * 1024
      then Inl (Error ''Image file too large. Please use an image smaller than 10MB.'')
      else Inr ())"

definition detect :: "string \<Rightarrow> rat \<Rightarrow> DiseaseEntry option" where
  \<comment> \<open>lines 75 to 88\<close>
  "detect fileName r =
     (if includes_str fileName ''blast'' then at_index diseases 0
      else if includes_str fileName ''blight'' then at_index diseases 1
      else if includes_str fileName ''spot'' then at_index diseases 2
      else if includes_str fileName ''sheath'' then at_index diseases 3
      else if includes_str fileName ''tungro'' then at_index diseases 4
      else at_index diseases (Math_floor (js_mul r (of_nat (length diseases)))))"

definition primary_result :: "DiseaseEntry \<Rightarrow> rat \<Rightarrow> DiseaseDetectionResult" where
  \<comment> \<open>lines 96 to 102\<close>
  "primary_result detectedDisease c =
     \<lparr>diseaseId = entryId detectedDisease,
      diseaseName = entryName detectedDisease,
      confidence = js_div (of_int (Math_round (js_mul c (num 100)))) (num 100),
      description = ''Detected '' @ entryName detectedDisease @ '' with ''
                    @ show_int (Math_round (js_mul c (num 100))) @ ''% confidence'',
      severity = entrySeverity detectedDisease\<rparr>"

definition secondary_result :: "DiseaseEntry \<Rightarrow> rat \<Rightarrow> DiseaseDetectionResult" where
  \<comment> \<open>lines 110 to 116\<close>
  "secondary_result secondaryDisease secondaryConfidence =
     \<lparr>diseaseId = entryId secondaryDisease,
      diseaseName = entryName secondaryDisease,
      confidence = js_div (of_int (Math_round (js_mul secondaryConfidence (num 100)))) (num 100),
      description = ''Possible '' @ entryName secondaryDisease @ '' with ''
                    @ show_int (Math_round (js_mul secondaryConfidence (num 100)))
                    @ ''% confidence'',
      severity = entrySeverity secondaryDisease\<rparr>"

definition by_confidence_desc :: "DiseaseDetectionResult \<Rightarrow> DiseaseDetectionResult \<Rightarrow> rat" where
  \<comment> \<open>the comparator of line 124\<close>
  "by_confidence_desc a b = js_sub (confidence b) (confidence a)"

definition analyze_try :: "File \<Rightarrow> draws \<Rightarrow> thrown + DiseaseDetectionResult list" where
  \<comment> \<open>the \<open>try\<close> block of \<open>analyzeImage\<close>: \<open>Inl\<close> is a throw, \<open>Inr\<close> the sorted results.
     Reading \<open>baseConfidence\<close> of \<open>undefined\<close> throws a \<open>TypeError\<close> (its text is the
     engine's; V8's is used), which no double in \<open>[0, 1)\<close> causes.\<close>
  "analyze_try imageFile d =
     (case check_file imageFile of
        Inl e \<Rightarrow> Inl e
      | Inr _ \<Rightarrow>
         (let fileName = toLowerCase (file_name imageFile) in
          case detect fileName (pick_draw d) of
            None \<Rightarrow> Inl (TypeError ''Cannot read properties of undefined (reading 'baseConfidence')'')
          | Some detectedDisease \<Rightarrow>
             (let confidence = max (num (5 / 10)) (min (num (95 / 100))
                    (js_add (baseConfidence detectedDisease)
                       (js_mul (js_sub (jitter_draw d) (num (5 / 10))) (num (2 / 10)))));
                  results = [primary_result detectedDisease confidence];
                  results =
                    (if secondary_draw d > num (7 / 10)
                     then (case find (\<lambda>e. entryId e \<noteq> entryId detectedDisease) diseases of
                             None \<Rightarrow> results
                           | Some secondaryDisease \<Rightarrow>
                              (let secondaryConfidence =
                                 max (num (3 / 10))
                                   (js_sub (js_sub confidence (num (2 / 10)))
                                      (js_mul (reduction_draw d) (num (2 / 10))))
                               in results @ [secondary_result secondaryDisease secondaryConfidence]))
                     else results)
              in Inr (array_sort by_confidence_desc results))))"

definition analyzeImage :: "File \<Rightarrow> draws \<Rightarrow> int \<Rightarrow> int \<Rightarrow> ImageAnalysisResult" where
  \<comment> \<open>\<open>startTime\<close> and \<open>endTime\<close> are the two readings of \<open>Date.now()\<close>\<close>
  "analyzeImage imageFile d startTime endTime =
     (case analyze_try imageFile d of
        Inr rs \<Rightarrow>
          \<lparr>success = True, results = rs, error = None, processingTime = endTime - startTime\<rparr>
      | Inl e \<Rightarrow>
          \<lparr>success = False, results = [], error = Some (message e),
           processingTime = endTime - startTime\<rparr>)"

definition getSupportedFormats :: "string list" where
  "getSupportedFormats = [''image/jpeg'', ''image/jpg'', ''image/png'', ''image/webp'']"

record validation =
  valid :: bool
  validation_error :: "string option"

definition validateImage :: "File \<Rightarrow> validation" where
  "validateImage file =
     (let supportedFormats = getSupportedFormats in
      if file_type file \<notin> set supportedFormats
      then \<lparr>valid = False,
            validation_error =
              Some (''Unsupported format. Please use: '' @ join '', '' supportedFormats)\<rparr>
      else if file_size file > 10 * 1024 * 1024
      then \<lparr>valid = False, validation_error = Some ''File too large. Maximum size is 10MB.''\<rparr>
      else \<lparr>valid = True, validation_error = None\<rparr>)"

section \<open>app/update-diseases/page.tsx\<close>

text \<open>
  A page that calls \<open>useNetworkStatus()\<close> carries the cells of its instance of the hook.
\<close>

record online_page = browser +
  network :: network_cells

text \<open>
  The interface \<open>Disease\<close>; \<open>id\<close>, \<open>name\<close>, \<open>description\<close> and \<open>severity\<close> carry the prefix
  \<open>disease_\<close>, and the fields of \<open>DiseaseFormData\<close> the prefix \<open>form_\<close>.
\<close>

record Disease =
  disease_id :: string
  disease_name :: string
  disease_description :: string
  symptoms :: "string list"
  solutions :: "string list"
  prevention :: "string list"
  disease_severity :: severity
  commonAreas :: "string list"

record DiseaseFormData =
  form_name :: string
  form_description :: string
  form_symptoms :: string
  form_solutions :: string
  form_prevention :: string
  form_severity :: severity
  form_commonAreas :: string

record UpdatePage = online_page +
  page_diseases :: "Disease list"
  loading :: bool
  isEditing :: bool
  editingId :: "string option"
  showAddForm :: bool
  formData :: DiseaseFormData

fun severity_json :: "severity \<Rightarrow> json" where
  "severity_json Low = JString ''Low''"
| "severity_json Medium = JString ''Medium''"
| "severity_json High = JString ''High''"

definition disease_json :: "Disease \<Rightarrow> json" where
  "disease_json d =
     JObject [(''id'', JString (disease_id d)),
              (''name'', JString (disease_name d)),
              (''description'', JString (disease_description d)),
              (''symptoms'', JArray (map JString (symptoms d))),
              (''solutions'', JArray (map JString (solutions d))),
              (''prevention'', JArray (map JString (prevention d))),
              (''severity'', severity_json (disease_severity d)),
              (''commonAreas'', JArray (map JString (commonAreas d)))]"

definition diseases_json :: "Disease list \<Rightarrow> json" where
  \<comment> \<open>\<open>JSON.stringify\<close> of a \<open>Disease[]\<close>\<close>
  "diseases_json ds = JArray (map disease_json ds)"

definition empty_form :: DiseaseFormData where
  "empty_form =
     \<lparr>form_name = [], form_description = [], form_symptoms = [], form_solutions = [],
      form_prevention = [], form_severity = Medium, form_commonAreas = []\<rparr>"

definition truthy :: "string option \<Rightarrow> bool" where
  \<comment> \<open>a \<open>string | null\<close> used as a condition: \<open>null\<close> and the empty string are falsy\<close>
  "truthy v = (case v of None \<Rightarrow> False | Some t \<Rightarrow> t \<noteq> [])"

definition newDisease :: "nat \<Rightarrow> UpdatePage \<Rightarrow> Disease" where
  \<comment> \<open>lines 86 to 95; \<open>now\<close> is the reading of \<open>Date.now()\<close>\<close>
  "newDisease now s =
     (let fd = formData s in
      \<lparr>disease_id = (if truthy (editingId s) then the (editingId s) else ''d'' @ show_nat now),
       disease_name = trim (form_name fd),
       disease_description = trim (form_description fd),
       symptoms = filter (\<lambda>t. trim t \<noteq> []) (split_on (CHR 0x0A) (form_symptoms fd)),
       solutions = filter (\<lambda>t. trim t \<noteq> []) (split_on (CHR 0x0A) (form_solutions fd)),
       prevention = filter (\<lambda>t. trim t \<noteq> []) (split_on (CHR 0x0A) (form_prevention fd)),
       disease_severity = form_severity fd,
       commonAreas = filter (\<lambda>a. a \<noteq> []) (map trim (split_on (CHR '','') (form_commonAreas fd)))\<rparr>)"

definition update_handleSubmit :: "nat \<Rightarrow> UpdatePage \<Rightarrow> UpdatePage" where
  \<comment> \<open>\<open>handleSubmit\<close> of the editor. Inside the handler \<open>diseases\<close>, \<open>editingId\<close>, \<open>formData\<close> and
     \<open>isOnline\<close> are the values of the render that created it; the \<open>set...\<close> calls only
     schedule the next state.\<close>
  "update_handleSubmit now s =
     (if trim (form_name (formData s)) = [] \<or> trim (form_description (formData s)) = []
      then s\<lparr>alerts := alerts s @ [''Please fill in all required fields'']\<rparr>
      else
        (let s1 = (if truthy (editingId s)
                   then s\<lparr>page_diseases :=
                           map (\<lambda>d. if disease_id d = the (editingId s) then newDisease now s else d)
                             (page_diseases s)\<rparr>
                   else s\<lparr>page_diseases := page_diseases s @ [newDisease now s]\<rparr>);
             s2 = s1\<lparr>formData := empty_form, isEditing := False, editingId := None,
                     showAddForm := False\<rparr>
         in if isOnline (useNetworkStatus (network s))
            then s2\<lparr>console := console s2 @ [(''Syncing with server...'', disease_json (newDisease now s))]\<rparr>
            else s2\<lparr>storage := (storage s2)(''localDiseases'' \<mapsto> diseases_json (page_diseases s))\<rparr>))"

definition handleDelete :: "bool \<Rightarrow> string \<Rightarrow> UpdatePage \<Rightarrow> UpdatePage" where
  \<comment> \<open>\<open>confirmed\<close> is the answer to \<open>confirm(...)\<close>\<close>
  "handleDelete confirmed i s =
     (if confirmed
      then
        (let s1 = s\<lparr>page_diseases := filter (\<lambda>d. disease_id d \<noteq> i) (page_diseases s)\<rparr>
         in if isOnline (useNetworkStatus (network s))
            then s1\<lparr>console := console s1 @ [(''Deleting from server...'', JString i)]\<rparr>
            else s1\<lparr>storage := (storage s1)(''localDiseases'' \<mapsto>
                      diseases_json (filter (\<lambda>d. disease_id d \<noteq> i) (page_diseases s)))\<rparr>)
      else s)"

section \<open>app/report-disease/page.tsx\<close>

datatype spreading_rate = slow | moderate | fast

datatype urgency_level = low | medium | high | critical

record ReportFormData =
  farmerName :: string
  contactNumber :: string
  email :: string
  farmLocation :: string
  region :: string
  report_diseaseName :: string
  report_description :: string
  report_symptoms :: string
  affectedArea :: string
  firstNoticed :: string
  spreadingRate :: spreading_rate
  previousTreatments :: string
  urgencyLevel :: urgency_level
  consentToContact :: bool
  consentToShare :: bool

record ReportPage = online_page +
  report_formData :: ReportFormData
  images :: "File list"
  imagePreviews :: "string list"
  isSubmitting :: bool
  submitted :: bool
  submitError :: "string option"

definition validateForm :: "ReportFormData \<Rightarrow> string option" where
  "validateForm fd =
     (if trim (farmerName fd) = [] then Some ''Farmer name is required''
      else if trim (contactNumber fd) = [] then Some ''Contact number is required''
      else if trim (farmLocation fd) = [] then Some ''Farm location is required''
      else if region fd = [] then Some ''Region is required''
      else if trim (report_diseaseName fd) = [] then Some ''Disease name is required''
      else if trim (report_description fd) = [] then Some ''Disease description is required''
      else if trim (report_symptoms fd) = [] then Some ''Symptoms are required''
      else if \<not> consentToContact fd then Some ''Consent to contact is required''
      else None)"

fun spreading_rate_json :: "spreading_rate \<Rightarrow> json" where
  "spreading_rate_json slow = JString ''slow''"
| "spreading_rate_json moderate = JString ''moderate''"
| "spreading_rate_json fast = JString ''fast''"

fun urgency_level_json :: "urgency_level \<Rightarrow> json" where
  "urgency_level_json low = JString ''low''"
| "urgency_level_json medium = JString ''medium''"
| "urgency_level_json high = JString ''high''"
| "urgency_level_json critical = JString ''critical''"

definition reportData :: "ReportFormData \<Rightarrow> File list \<Rightarrow> string \<Rightarrow> nat \<Rightarrow> json" where
  \<comment> \<open>lines 158 to 163: the form, the image names, the ISO time stamp and the report id\<close>
  "reportData fd imgs submittedAt now =
     JObject [(''farmerName'', JString (farmerName fd)),
              (''contactNumber'', JString (contactNumber fd)),
              (''email'', JString (email fd)),
              (''farmLocation'', JString (farmLocation fd)),
              (''region'', JString (region fd)),
              (''diseaseName'', JString (report_diseaseName fd)),
              (''description'', JString (report_description fd)),
              (''symptoms'', JString (report_symptoms fd)),
              (''affectedArea'', JString (affectedArea fd)),
              (''firstNoticed'', JString (firstNoticed fd)),
              (''spreadingRate'', spreading_rate_json (spreadingRate fd)),
              (''previousTreatments'', JString (previousTreatments fd)),
              (''urgencyLevel'', urgency_level_json (urgencyLevel fd)),
              (''consentToContact'', JBool (consentToContact fd)),
              (''consentToShare'', JBool (consentToShare fd)),
              (''images'', JArray (map (\<lambda>img. JString (file_name img)) imgs)),
              (''submittedAt'', JString submittedAt),
              (''reportId'', JString (''RPT-'' @ show_nat now))]"

definition report_handleSubmit :: "nat \<Rightarrow> string \<Rightarrow> ReportPage \<Rightarrow> ReportPage" where
  \<comment> \<open>\<open>handleSubmit\<close> of the report form, from the click to the end of \<open>finally\<close>; \<open>now\<close> and
     \<open>submittedAt\<close> are the readings of \<open>Date.now()\<close> and \<open>new Date().toISOString()\<close>\<close>
  "report_handleSubmit now submittedAt s =
     (case validateForm (report_formData s) of
        Some validationError \<Rightarrow> s\<lparr>alerts := alerts s @ [validationError]\<rparr>
      | None \<Rightarrow>
         if \<not> isOnline (useNetworkStatus (network s))
         then s\<lparr>alerts := alerts s @ [''Internet connection required to submit reports'']\<rparr>
         else s\<lparr>submitError := None,
                console := console s @ [(''Report submitted:'',
                             reportData (report_formData s) (images s) submittedAt now)],
                submitted := True,
                isSubmitting := False\<rparr>)"

section \<open>app/translate/page.tsx\<close>

record translation =
  english :: string
  filipino :: string

text \<open>
  \<open>dictionary\<close> is the document \<open>/data/translations.json\<close>: a map from words to strings.
\<close>

record TranslatePage = browser +
  inputText :: string
  translatedText :: string
  dictionary :: "string \<rightharpoonup> string"
  translating :: bool
  recentTranslations :: "translation list"

fun split_ws :: "string \<Rightarrow> string list" where
  \<comment> \<open>\<open>s.split(/\s+/)\<close>: a run of white space is one separator\<close>
  "split_ws [] = [[]]"
| "split_ws (c # cs) =
     (if is_space c
      then (case cs of
              [] \<Rightarrow> [] # split_ws cs
            | c' # _ \<Rightarrow> if is_space c' then split_ws cs else [] # split_ws cs)
      else (case split_ws cs of
              [] \<Rightarrow> [[c]]
            | w # ws \<Rightarrow> (c # w) # ws))"

fun substitution :: "string \<Rightarrow> string \<Rightarrow> string \<Rightarrow> string \<Rightarrow> string" where
  \<comment> \<open>the replacement text of \<open>replace\<close> for a string pattern: \<open>$$\<close>, \<open>$&\<close>, \<open>$`\<close> and \<open>$'\<close> stand
     for a dollar, the match, the text before it (\<open>pre\<close>) and the text after it (\<open>post\<close>)\<close>
  "substitution [] matched pre post = []"
| "substitution [c] matched pre post = [c]"
| "substitution (c # x # xs) matched pre post =
     (if c = CHR ''$'' \<and> x = CHR ''$'' then CHR ''$'' # substitution xs matched pre post
      else if c = CHR ''$'' \<and> x = CHR ''&'' then matched @ substitution xs matched pre post
      else if c = CHR ''$'' \<and> x = CHR 0x60 then pre @ substitution xs matched pre post
      else if c = CHR ''$'' \<and> x = CHR 0x27 then post @ substitution xs matched pre post
      else c # substitution (x # xs) matched pre post)"

fun replace_from :: "string \<Rightarrow> string \<Rightarrow> string \<Rightarrow> string \<Rightarrow> string" where
  \<comment> \<open>\<open>pre\<close> is the text already passed, the second argument the text still to search\<close>
  "replace_from pre [] pat repl =
     (if pat = [] then pre @ substitution repl pat pre [] else pre)"
| "replace_from pre (c # cs) pat repl =
     (if startsWith (c # cs) pat
      then pre @ substitution repl pat pre (drop (length pat) (c # cs))
           @ drop (length pat) (c # cs)
      else replace_from (pre @ [c]) cs pat repl)"

definition replace_str :: "string \<Rightarrow> string \<Rightarrow> string \<Rightarrow> string" where
  \<comment> \<open>\<open>word.replace(pat, repl)\<close> with a string pattern: the first occurrence only\<close>
  "replace_str word pat repl = replace_from [] word pat repl"

definition translate_word :: "(string \<rightharpoonup> string) \<Rightarrow> string \<Rightarrow> string" where
  \<comment> \<open>lines 61 to 72. \<open>dict\<close> holds the document's own keys; an empty translation is falsy.
     A key the document lacks is looked up in \<open>Object.prototype\<close>, where a word of
     \<open>[a-z0-9_]\<close> finds \<open>constructor\<close> (the function \<open>Object\<close>, which as a replacer gives back
     the match) and \<open>__proto__\<close> (an object, printed as \<open>[object Object]\<close>).\<close>
  "translate_word dict word =
     (let cleanWord = filter is_word word in
      case dict cleanWord of
        Some translation \<Rightarrow>
          if translation \<noteq> [] then replace_str word cleanWord translation else word
      | None \<Rightarrow>
          if cleanWord = ''constructor'' then replace_str word cleanWord cleanWord
          else if cleanWord = ''__proto__'' then replace_str word cleanWord ''[object Object]''
          else word)"

definition translations_json :: "translation list \<Rightarrow> json" where
  "translations_json ts =
     JArray (map (\<lambda>t. JObject [(''english'', JString (english t)),
                                (''filipino'', JString (filipino t))]) ts)"

definition translateText :: "TranslatePage \<Rightarrow> TranslatePage" where
  "translateText s =
     (if trim (inputText s) = [] then s
      else
        (let words = split_ws (toLowerCase (inputText s));
             translatedWords = map (translate_word (dictionary s)) words;
             result = join '' '' translatedWords;
             newTranslation = \<lparr>english = inputText s, filipino = result\<rparr>;
             updated = newTranslation # take 4 (recentTranslations s)
         in s\<lparr>translatedText := result,
              recentTranslations := updated,
              storage := (storage s)(''recentTranslations'' \<mapsto> translations_json updated),
              translating := False\<rparr>))"

definition translate_all :: "TranslatePage \<Rightarrow> string list \<Rightarrow> TranslatePage" where
  \<comment> \<open>typing each text in turn and pressing the button after each\<close>
  "translate_all s texts = foldl (\<lambda>s t. translateText (s\<lparr>inputText := t\<rparr>)) s texts"

definition recent_inv :: "TranslatePage \<Rightarrow> bool" where
  \<comment> \<open>the list is short and the store holds its serialization\<close>
  "recent_inv s = (length (recentTranslations s) \<le> 5
     \<and> storage s ''recentTranslations'' = Some (translations_json (recentTranslations s)))"

section \<open>Example inputs\<close>

definition blast_photo :: File where
  "blast_photo = \<lparr>file_name = ''my_BLAST.png'', file_type = ''image/png'', file_size = 5, file_content = []\<rparr>"

definition high_draws :: draws where
  "high_draws = \<lparr>pick_draw = 1 / 2, jitter_draw = 3 / 4, secondary_draw = 3 / 4, reduction_draw = 1 / 4\<rparr>"

definition rice_blast :: DiseaseEntry where
  "rice_blast = \<lparr>entryId = ''d1'', entryName = ''Rice Blast'', baseConfidence = num (85 / 100), entrySeverity = High\<rparr>"

definition leaf_blight :: DiseaseEntry where
  "leaf_blight = \<lparr>entryId = ''d2'', entryName = ''Bacterial Leaf Blight'', baseConfidence = num (78 / 100), entrySeverity = Medium\<rparr>"

definition gif_file :: File where
  "gif_file = \<lparr>file_name = ''leaf.gif'', file_type = ''image/gif'', file_size = 2048, file_content = [71, 73, 70]\<rparr>"

definition text_file :: File where
  "text_file = \<lparr>file_name = ''blast.txt'', file_type = ''text/plain'', file_size = 12, file_content = []\<rparr>"

definition offline_cells :: network_cells where
  "offline_cells = \<lparr>isOnline_cell = False, wasOffline_cell = True\<rparr>"

definition brown_spot :: Disease where
  "brown_spot =
     \<lparr>disease_id = ''d3'', disease_name = ''Brown Spot'', disease_description = ''Fungal leaf spots'',
      symptoms = [''Brown lesions''], solutions = [''Fungicide''], prevention = [''Clean seed''],
      disease_severity = Medium, commonAreas = [''Luzon'']\<rparr>"

definition leaf_smut_form :: DiseaseFormData where
  "leaf_smut_form =
     \<lparr>form_name = ''Leaf Smut'', form_description = ''Black spots on leaves'',
      form_symptoms = ''spots'', form_solutions = [], form_prevention = [],
      form_severity = Low, form_commonAreas = ''Visayas, Mindanao''\<rparr>"

definition editor_offline :: UpdatePage where
  "editor_offline =
     \<lparr>storage = Map.empty, console = [], alerts = [], network = offline_cells,
      page_diseases = [brown_spot], loading = False, isEditing = False, editingId = None,
      showAddForm = True, formData = leaf_smut_form\<rparr>"

definition report_form_filled :: ReportFormData where
  "report_form_filled =
     \<lparr>farmerName = ''Ana'', contactNumber = ''0917'', email = [], farmLocation = ''Tarlac'',
      region = ''Region III (Central Luzon)'', report_diseaseName = ''Blast'',
      report_description = ''Lesions'', report_symptoms = ''Spots'', affectedArea = [],
      firstNoticed = [], spreadingRate = moderate, previousTreatments = [],
      urgencyLevel = medium, consentToContact = True, consentToShare = False\<rparr>"

definition report_offline :: ReportPage where
  "report_offline =
     \<lparr>storage = Map.empty, console = [], alerts = [], network = offline_cells,
      report_formData = report_form_filled, images = [], imagePreviews = [],
      isSubmitting = False, submitted = False, submitError = None\<rparr>"

definition phrase_book :: "string \<rightharpoonup> string" where
  "phrase_book = map_of [(''rice'', ''bigas''), (''disease'', ''sakit''), (''leaf'', ''dahon'')]"

definition five_recent :: "translation list" where
  "five_recent =
     [\<lparr>english = ''leaf'', filipino = ''dahon''\<rparr>, \<lparr>english = ''rice'', filipino = ''bigas''\<rparr>,
      \<lparr>english = ''a'', filipino = ''a''\<rparr>, \<lparr>english = ''b'', filipino = ''b''\<rparr>,
      \<lparr>english = ''c'', filipino = ''c''\<rparr>]"

definition translator :: TranslatePage where
  "translator =
     \<lparr>storage = Map.empty, console = [], alerts = [],
      inputText = ''Rice  disease!'', translatedText = [], dictionary = phrase_book,
      translating = False, recentTranslations = five_recent\<rparr>"

section \<open>Strings: properties\<close>

lemma startsWith_prefix: "startsWith s p = prefix p s"
  by (induction s p rule: startsWith.induct) auto

lemma includes_str_sublist: "includes_str s p = sublist p s"
  by (induction s) (auto simp: startsWith_prefix sublist_Cons_right)

section \<open>Network status: properties\<close>

lemma handle_event_keeps_wasOffline:
  "wasOffline_cell s \<Longrightarrow> wasOffline_cell (handle_event s ev)"
  by (cases ev) (simp_all add: Let_def)

lemma foldl_keeps_wasOffline:
  "wasOffline_cell s \<Longrightarrow> wasOffline_cell (foldl handle_event s evs)"
proof (induction evs arbitrary: s)
  case Nil
  then show ?case by simp
next
  case (Cons ev evs)
  from Cons.prems have "wasOffline_cell (handle_event s ev)"
    by (rule handle_event_keeps_wasOffline)
  then show ?case using Cons.IH by simp
qed

text \<open>
  C2. Once the \<open>wasOffline\<close> field of the network status is true, it is true after every
  further sequence of connectivity events (mount effect, \<open>online\<close>, \<open>offline\<close>), whatever
  \<open>navigator.onLine\<close> reads at each of them; going offline sets it.
\<close>

theorem wasOffline_sticky:
  "wasOffline (useNetworkStatus s) \<Longrightarrow> wasOffline (useNetworkStatus (run_events s evs))"
  by (simp add: useNetworkStatus_def run_events_def foldl_keeps_wasOffline)

theorem wasOffline_sticky_witness:
  "wasOffline (useNetworkStatus (run_events initial_cells [Mounted True, Offline]))
   \<and> wasOffline (useNetworkStatus
        (run_events (run_events initial_cells [Mounted True, Offline]) [Online True, Offline, Online True]))
   \<and> isOnline (useNetworkStatus
        (run_events (run_events initial_cells [Mounted True, Offline]) [Online True, Offline, Online True]))"
proof -
  have h: "wasOffline (useNetworkStatus (run_events initial_cells [Mounted True, Offline]))"
    by (simp add: useNetworkStatus_def run_events_def initial_cells_def)
  from wasOffline_sticky [OF h, of "[Online True, Offline, Online True]"] h show ?thesis
    by (simp add: useNetworkStatus_def run_events_def initial_cells_def)
qed

text \<open>
  C7. Whatever the connectivity, the capability resolver answers true for \<open>canScanImages\<close>,
  \<open>canTranslate\<close>, \<open>canViewDiseases\<close> and \<open>canViewVendors\<close>, and \<open>canReportDiseases\<close> is the
  current \<open>isOnline\<close>.
\<close>

theorem capabilities_fixed:
  "canScanImages (useOfflineCapabilities s) = True
   \<and> canTranslate (useOfflineCapabilities s) = True
   \<and> canViewDiseases (useOfflineCapabilities s) = True
   \<and> canViewVendors (useOfflineCapabilities s) = True
   \<and> canReportDiseases (useOfflineCapabilities s) = isOnline (useNetworkStatus s)"
  by (simp add: useOfflineCapabilities_def Let_def)

section \<open>Numbers: properties\<close>

lemma round_even_close: "\<bar>of_int (round_even y) - y\<bar> \<le> 1 / 2"
proof -
  have "of_int \<lfloor>y\<rfloor> \<le> y" and "y < of_int \<lfloor>y\<rfloor> + 1" by linarith+
  then show ?thesis unfolding round_even_def Let_def by (auto simp: abs_le_iff)
qed

lemma round_even_of_int [simp]: "round_even (of_int k) = k"
  by (simp add: round_even_def)

lemma round_even_le: "y \<le> of_int k \<Longrightarrow> round_even y \<le> k"
proof -
  assume a: "y \<le> of_int k"
  have "of_int (round_even y) \<le> y + 1 / 2" using round_even_close [of y] by linarith
  with a have "(of_int (round_even y) :: rat) < of_int k + 1" by linarith
  then have "(of_int (round_even y) :: rat) < of_int (k + 1)" by simp
  then have "round_even y < k + 1" by (simp only: of_int_less_iff)
  then show ?thesis by simp
qed

lemma round_even_below:
  assumes "y < of_int k + 1 / 2"
  shows "round_even y \<le> k"
proof -
  have "of_int (round_even y) \<le> y + 1 / 2" using round_even_close [of y] by linarith
  with assms have "(of_int (round_even y) :: rat) < of_int (k + 1)" by simp
  then have "round_even y < k + 1" by (simp only: of_int_less_iff)
  then show ?thesis by simp
qed

lemma round_even_ge: "of_int k \<le> y \<Longrightarrow> k \<le> round_even y"
proof -
  assume a: "of_int k \<le> y"
  have "y - 1 / 2 \<le> of_int (round_even y)" using round_even_close [of y] by linarith
  with a have "(of_int (k - 1) :: rat) < of_int (round_even y)" by simp
  then have "k - 1 < round_even y" by (simp only: of_int_less_iff)
  then show ?thesis by simp
qed

lemma powi2_less_imp:
  assumes "(2 :: rat) powi m < 2 powi n"
  shows "m < n"
proof (rule ccontr)
  assume "\<not> m < n"
  then have "n \<le> m" by simp
  then have "(2 :: rat) powi n \<le> 2 powi m" by (rule power_int_increasing) simp
  with assms show False by simp
qed

lemma binade_ge1:
  fixes x :: rat
  assumes "1 \<le> x"
  shows "2 powi (bitlen \<lfloor>x\<rfloor> - 1) \<le> x \<and> x < 2 powi (bitlen \<lfloor>x\<rfloor> - 1 + 1)"
proof -
  let ?n = "\<lfloor>x\<rfloor>" and ?b = "bitlen \<lfloor>x\<rfloor>"
  have n: "0 < ?n" using assms by simp
  from bitlen_bounds [OF n] have lo: "2 ^ nat (?b - 1) \<le> ?n" and hi: "?n < 2 ^ nat ?b" by auto
  have b: "1 \<le> ?b" using n bitlen_eq_zero_iff [of ?n] bitlen_nonneg [of ?n] by linarith
  have "(2 :: rat) ^ nat (?b - 1) \<le> of_int ?n" using lo by simp
  moreover have "of_int ?n \<le> x" by simp
  ultimately have 1: "(2 :: rat) ^ nat (?b - 1) \<le> x" by (rule order_trans)
  from hi have "?n + 1 \<le> 2 ^ nat ?b" by simp
  then have "(of_int (?n + 1) :: rat) \<le> 2 ^ nat ?b" by (simp only: of_int_le_numeral_power_cancel_iff)
  moreover have "x < of_int (?n + 1)" by simp linarith
  ultimately have 2: "x < (2 :: rat) ^ nat ?b" by (rule less_le_trans [rotated])
  from 1 2 b show ?thesis by (simp add: power_int_nonneg_exp)
qed

lemma binade_lt1:
  fixes x :: rat
  assumes "0 < x" and "x < 1"
  shows "2 powi (- bitlen (\<lceil>1 / x\<rceil> - 1)) \<le> x \<and> x < 2 powi (- bitlen (\<lceil>1 / x\<rceil> - 1) + 1)"
proof -
  let ?y = "1 / x"
  let ?n = "\<lceil>?y\<rceil> - 1" and ?k = "bitlen (\<lceil>?y\<rceil> - 1)"
  have y: "1 < ?y" using assms by simp
  have c: "of_int \<lceil>?y\<rceil> - 1 < ?y" and c2: "?y \<le> of_int \<lceil>?y\<rceil>" by linarith+
  have "1 < \<lceil>?y\<rceil>" using y by (simp add: less_ceiling_iff)
  then have n: "0 < ?n" by simp
  from bitlen_bounds [OF n] have lo: "2 ^ nat (?k - 1) \<le> ?n" and hi: "?n < 2 ^ nat ?k" by auto
  have k: "1 \<le> ?k" using n bitlen_eq_zero_iff [of ?n] bitlen_nonneg [of ?n] by linarith
  have e: "(of_int ((2 :: int) ^ nat (?k - 1)) :: rat) = 2 ^ nat (?k - 1)" by simp
  have f: "(of_int ?n :: rat) = of_int \<lceil>?y\<rceil> - 1" by simp
  have "(of_int (2 ^ nat (?k - 1)) :: rat) \<le> of_int ?n" using lo by (simp only: of_int_le_iff)
  then have "(2 :: rat) ^ nat (?k - 1) \<le> of_int \<lceil>?y\<rceil> - 1" unfolding e f .
  with c have 1: "(2 :: rat) ^ nat (?k - 1) < ?y" by linarith
  from hi have "?n + 1 \<le> 2 ^ nat ?k" by simp
  then have "(of_int (?n + 1) :: rat) \<le> 2 ^ nat ?k" by (simp only: of_int_le_numeral_power_cancel_iff)
  then have "(of_int \<lceil>?y\<rceil> :: rat) \<le> 2 ^ nat ?k" by simp
  with c2 have 2: "?y \<le> (2 :: rat) ^ nat ?k" by linarith
  have p1: "(0 :: rat) < 2 ^ nat (?k - 1)" and p2: "(0 :: rat) < 2 ^ nat ?k" by simp_all
  from 2 assms(1) p2 have a: "1 / 2 ^ nat ?k \<le> x"
    by (simp add: field_simps)
  from 1 assms(1) p1 have b: "x < 1 / 2 ^ nat (?k - 1)"
    by (simp add: field_simps)
  have e1: "(2 :: rat) powi (- ?k) = 1 / 2 ^ nat ?k"
    using k by (simp add: power_int_minus_divide power_int_nonneg_exp)
  have "(2 :: rat) powi (- ?k + 1) = 2 powi (- (?k - 1))" by simp
  also have "\<dots> = 1 / 2 ^ nat (?k - 1)"
    using k by (simp only: power_int_minus_divide) (simp add: power_int_nonneg_exp)
  finally have e2: "(2 :: rat) powi (- ?k + 1) = 1 / 2 ^ nat (?k - 1)" .
  from a b e1 e2 show ?thesis by simp
qed

lemma binade_bounds:
  assumes "x \<noteq> 0"
  shows "2 powi binade x \<le> \<bar>x\<bar> \<and> \<bar>x\<bar> < 2 powi (binade x + 1)"
proof (cases "1 \<le> \<bar>x\<bar>")
  case True
  from binade_ge1 [OF True] True show ?thesis by (simp add: binade_def)
next
  case False
  then have "\<bar>x\<bar> < 1" by simp
  moreover have "0 < \<bar>x\<bar>" using assms by simp
  ultimately show ?thesis using binade_lt1 [of "\<bar>x\<bar>"] False by (simp add: binade_def)
qed

lemma binade_unique:
  assumes "2 powi e \<le> \<bar>x\<bar>" and "\<bar>x\<bar> < 2 powi (e + 1)"
  shows "binade x = e"
proof -
  have "(0 :: rat) < 2 powi e" by simp
  with assms(1) have "0 < \<bar>x\<bar>" by linarith
  then have nz: "x \<noteq> 0" by simp
  from binade_bounds [OF nz] have b1: "2 powi binade x \<le> \<bar>x\<bar>" and b2: "\<bar>x\<bar> < 2 powi (binade x + 1)"
    by auto
  from assms(1) b2 have "(2 :: rat) powi e < 2 powi (binade x + 1)" by linarith
  then have 1: "e < binade x + 1" by (rule powi2_less_imp)
  from b1 assms(2) have "(2 :: rat) powi binade x < 2 powi (e + 1)" by linarith
  then have 2: "binade x < e + 1" by (rule powi2_less_imp)
  from 1 2 show ?thesis by simp
qed


lemma ulp_pos [simp]: "0 < ulp x"
  by (simp add: ulp_def)

lemma ulp_nonneg [simp]: "0 \<le> ulp x"
  by (rule less_imp_le) simp

lemma ulp_nonzero [simp]: "ulp x \<noteq> 0"
  by (simp add: ulp_def)

lemma double_zero [simp]: "double 0 = 0"
  by (simp add: double_def)

lemma double_close: "\<bar>double x - x\<bar> \<le> ulp x / 2"
proof (cases "x = 0")
  case True
  then show ?thesis by simp
next
  case False
  let ?u = "ulp x"
  have u: "0 < ?u" by simp
  have "double x - x = (of_int (round_even (x / ?u)) - x / ?u) * ?u"
    using False u by (simp add: double_def field_simps)
  then have "\<bar>double x - x\<bar> = \<bar>of_int (round_even (x / ?u)) - x / ?u\<bar> * ?u"
    using u by (simp add: abs_mult)
  also have "\<dots> \<le> (1 / 2) * ?u"
    using round_even_close [of "x / ?u"] u by (intro mult_right_mono) simp_all
  finally show ?thesis by simp
qed

lemma ulp_le:
  assumes "x \<noteq> 0"
  shows "ulp x \<le> \<bar>x\<bar> / 2 ^ 52 + 2 powi (- 1074)"
proof (cases "- 1022 \<le> binade x")
  case True
  then have "ulp x = 2 powi (binade x - 52)" by (simp add: ulp_def max_def)
  also have "\<dots> = 2 powi binade x / 2 ^ 52" by (simp add: power_int_diff)
  also have "\<dots> \<le> \<bar>x\<bar> / 2 ^ 52"
    using binade_bounds [OF assms] by (simp add: divide_right_mono)
  finally have "ulp x \<le> \<bar>x\<bar> / 2 ^ 52" .
  moreover have "(0 :: rat) < 2 powi (- 1074)" by simp
  ultimately show ?thesis by linarith
next
  case False
  then have "ulp x = 2 powi (- 1074)" by (simp add: ulp_def max_def)
  moreover have "0 \<le> \<bar>x\<bar> / 2 ^ 52" by simp
  ultimately show ?thesis by linarith
qed

lemma tiny_le: "(2 :: rat) powi (- 1074) \<le> 1 / 1000000"
proof -
  have "(2 :: rat) powi (- 1074) \<le> 2 powi (- 20)" by (rule power_int_increasing) simp_all
  also have "\<dots> \<le> 1 / 1000000" by (simp add: power_int_minus_divide)
  finally show ?thesis .
qed

lemma double_near: "\<bar>double x - x\<bar> \<le> (\<bar>x\<bar> + 1) / 1000000"
proof (cases "x = 0")
  case True
  then show ?thesis by simp
next
  case False
  have "\<bar>double x - x\<bar> \<le> ulp x / 2" by (rule double_close)
  also have "\<dots> \<le> (\<bar>x\<bar> / 2 ^ 52 + 2 powi (- 1074)) / 2"
    using ulp_le [OF False] by simp
  also have "\<dots> \<le> (\<bar>x\<bar> / 1000000 + 1 / 1000000) / 2"
  proof -
    have "\<bar>x\<bar> / 2 ^ 52 \<le> \<bar>x\<bar> / 1000000" by (intro divide_left_mono) simp_all
    with tiny_le show ?thesis by simp
  qed
  also have "\<dots> \<le> (\<bar>x\<bar> + 1) / 1000000" by (simp add: field_simps)
  finally show ?thesis .
qed

lemma double_nonneg: "0 \<le> x \<Longrightarrow> 0 \<le> double x"
proof (cases "x = 0")
  case True
  then show ?thesis by simp
next
  case False
  assume "0 \<le> x"
  then have "of_int 0 \<le> x / ulp x" by simp
  then have "0 \<le> round_even (x / ulp x)" by (rule round_even_ge)
  then show ?thesis using False by (simp add: double_def)
qed

lemma double_nonpos: "x \<le> 0 \<Longrightarrow> double x \<le> 0"
proof (cases "x = 0")
  case True
  then show ?thesis by simp
next
  case False
  assume "x \<le> 0"
  then have "x / ulp x \<le> of_int 0" by (simp add: divide_le_0_iff)
  then have "round_even (x / ulp x) \<le> 0" by (rule round_even_le)
  then show ?thesis using False by (simp add: double_def mult_le_0_iff)
qed

lemma double_grid: "\<exists>m :: int. double x = of_int m * 2 powi (- 1074)"
proof (cases "x = 0")
  case True
  then have "double x = of_int 0 * 2 powi (- 1074)" by simp
  then show ?thesis by blast
next
  case False
  let ?e = "max (binade x) (- 1022)"
  have "0 \<le> ?e + 1022" by simp
  have "(2 :: rat) powi (?e - 52) = 2 powi ((?e + 1022) + (- 1074))" by simp
  also have "\<dots> = 2 powi (?e + 1022) * 2 powi (- 1074)" by (rule power_int_add) simp
  also have "\<dots> = of_int (2 ^ nat (?e + 1022)) * 2 powi (- 1074)"
    using \<open>0 \<le> ?e + 1022\<close> by (simp add: power_int_nonneg_exp)
  finally have "ulp x = of_int (2 ^ nat (?e + 1022)) * 2 powi (- 1074)" by (simp add: ulp_def)
  then have "double x = of_int (round_even (x / ulp x) * 2 ^ nat (?e + 1022)) * 2 powi (- 1074)"
    using False by (simp add: double_def)
  then show ?thesis by blast
qed

lemma double_pos:
  assumes "2 powi (- 1074) \<le> x"
  shows "0 < double x"
proof -
  have q: "(0 :: rat) < 2 powi (- 1074)" by simp
  with assms have pos: "0 < x" by linarith
  then have nz: "x \<noteq> 0" by simp
  have "ulp x \<le> x"
  proof (cases "- 1022 \<le> binade x")
    case True
    then have "ulp x = 2 powi (binade x - 52)" by (simp add: ulp_def max_def)
    also have "\<dots> \<le> 2 powi binade x" by (rule power_int_increasing) simp_all
    also have "\<dots> \<le> x" using binade_bounds [OF nz] pos by simp
    finally show ?thesis .
  next
    case False
    then have "ulp x = 2 powi (- 1074)" by (simp add: ulp_def max_def)
    with assms show ?thesis by simp
  qed
  then have "of_int 1 \<le> x / ulp x" by (simp add: le_divide_eq)
  then have "1 \<le> round_even (x / ulp x)" by (rule round_even_ge)
  then have "(0 :: rat) < of_int (round_even (x / ulp x))" by simp
  then show ?thesis using nz by (simp add: double_def)
qed

lemma double_diff_sign: "(double (double y - double x) \<le> 0) = (double y \<le> double x)"
proof
  assume "double y \<le> double x"
  then have "double y - double x \<le> 0" by simp
  then show "double (double y - double x) \<le> 0" by (rule double_nonpos)
next
  assume le: "double (double y - double x) \<le> 0"
  show "double y \<le> double x"
  proof (rule ccontr)
    assume "\<not> double y \<le> double x"
    then have lt: "double x < double y" by simp
    let ?q = "(2 :: rat) powi (- 1074)"
    have q: "0 < ?q" by simp
    from double_grid [of x] obtain ma :: int where a: "double x = of_int ma * ?q" by blast
    from double_grid [of y] obtain mb :: int where b: "double y = of_int mb * ?q" by blast
    from lt a b q have "(of_int ma :: rat) < of_int mb" by (simp add: mult_less_cancel_right)
    then have "ma < mb" by (simp only: of_int_less_iff)
    then have "1 \<le> mb - ma" by simp
    then have "(of_int 1 :: rat) \<le> of_int (mb - ma)" by (simp only: of_int_le_iff)
    then have "1 * ?q \<le> of_int (mb - ma) * ?q" using q by (intro mult_right_mono) simp_all
    then have "?q \<le> double y - double x" using a b by (simp add: algebra_simps)
    then have "0 < double (double y - double x)" by (rule double_pos)
    with le show False by simp
  qed
qed

lemma double_eval:
  assumes "2 powi e \<le> \<bar>x\<bar>" and "\<bar>x\<bar> < 2 powi (e + 1)"
  shows "double x = of_int (round_even (x / 2 powi (max e (- 1022) - 52))) * 2 powi (max e (- 1022) - 52)"
proof -
  have "(0 :: rat) < 2 powi e" by simp
  with assms(1) have "0 < \<bar>x\<bar>" by linarith
  then have nz: "x \<noteq> 0" by simp
  from binade_unique [OF assms] nz show ?thesis by (simp add: double_def ulp_def)
qed

lemma is_double_half: "is_double (1 / 2)"
  unfolding is_double_def
  by (subst double_eval [where e = "- 1"])
     (simp_all add: power_int_minus_divide round_even_def)

lemma is_double_quarter: "is_double (1 / 4)"
  unfolding is_double_def
  by (subst double_eval [where e = "- 2"])
     (simp_all add: power_int_minus_divide round_even_def)

lemma is_double_three_quarters: "is_double (3 / 4)"
  unfolding is_double_def
  by (subst double_eval [where e = "- 1"])
     (simp_all add: power_int_minus_divide round_even_def)

lemma double_near_scaled: "1000000 * \<bar>double x - x\<bar> \<le> \<bar>x\<bar> + 1"
  using double_near [of x] by (simp add: field_simps)

lemma double_upper:
  assumes "0 \<le> x"
  shows "1000000 * double x \<le> 1000001 * x + 1"
proof -
  define A where "A = \<bar>double x - x\<bar>"
  have "1000000 * A \<le> x + 1" unfolding A_def using double_near_scaled [of x] assms by simp
  moreover have "double x - x \<le> A" unfolding A_def by simp
  ultimately show ?thesis by linarith
qed

lemma double_lower:
  assumes "0 \<le> x"
  shows "999999 * x - 1 \<le> 1000000 * double x"
proof -
  define A where "A = \<bar>double x - x\<bar>"
  have "1000000 * A \<le> x + 1" unfolding A_def using double_near_scaled [of x] assms by simp
  moreover have "x - double x \<le> A" unfolding A_def by simp
  ultimately show ?thesis by linarith
qed

lemma double_half: "double (1 / 2) = 1 / 2"
  using is_double_half by (simp add: is_double_def)

lemma num_half: "num (5 / 10) = 1 / 2"
  using double_half by (simp add: num_def)

lemma num_100: "num 100 = 100"
  unfolding num_def
  by (subst double_eval [where e = 6])
     (simp_all add: power_int_minus_divide round_even_def)

lemma double_95: "double (95 / 100) = 4278419646001971 / 4503599627370496"
  by code_simp

lemma num_95_le: "num (95 / 100) \<le> 95 / 100"
  unfolding num_def double_95 by simp

lemma num_95_ge: "1 / 2 \<le> num (95 / 100)"
  unfolding num_def double_95 by simp

lemma num_upper: "0 \<le> x \<Longrightarrow> 1000000 * num x \<le> 1000001 * x + 1"
  unfolding num_def by (rule double_upper)

lemma num_lower: "0 \<le> x \<Longrightarrow> 999999 * x - 1 \<le> 1000000 * num x"
  unfolding num_def by (rule double_lower)

lemma clamp_bounds:
  "1 / 2 \<le> max (num (5 / 10)) (min (num (95 / 100)) x)
   \<and> max (num (5 / 10)) (min (num (95 / 100)) x) \<le> 95 / 100"
  unfolding num_half using num_95_le num_95_ge by linarith

lemma round_primary:
  assumes "1 / 2 \<le> c" and "c \<le> 95 / 100"
  shows "50 \<le> Math_round (js_mul c (num 100)) \<and> Math_round (js_mul c (num 100)) \<le> 95"
proof -
  let ?t = "double (c * 100)"
  have nn: "0 \<le> c * 100" using assms(1) by linarith
  from double_upper [OF nn] assms(2) have "?t + 1 / 2 < 96" by linarith
  then have up: "?t + 1 / 2 < of_int 96" by simp
  from double_lower [OF nn] assms(1) have "50 \<le> ?t + 1 / 2" by linarith
  then have lo: "of_int 50 \<le> ?t + 1 / 2" by simp
  from lo have 1: "50 \<le> \<lfloor>?t + 1 / 2\<rfloor>" by (simp only: le_floor_iff)
  from up have 2: "\<lfloor>?t + 1 / 2\<rfloor> < 96" by (simp only: floor_less_iff)
  from 1 2 show ?thesis unfolding Math_round_def js_mul_def num_100 by linarith
qed

lemma final_confidence:
  assumes "50 \<le> k" and "k \<le> 95"
  shows "1 / 2 \<le> js_div (of_int k) (num 100) \<and> js_div (of_int k) (num 100) \<le> 95 / 100"
proof -
  consider "k = 50" | "k = 95" | "51 \<le> k \<and> k \<le> 94" using assms by linarith
  then show ?thesis
  proof cases
    case 1
    have "(of_int 50 :: rat) / 100 = 1 / 2" by simp
    then show ?thesis unfolding js_div_def num_100 1 using double_half by simp
  next
    case 2
    have "(of_int 95 :: rat) / 100 = 95 / 100" by simp
    then show ?thesis unfolding js_div_def num_100 2
      using num_95_le num_95_ge by (simp only: num_def)
  next
    case 3
    let ?x = "(of_int k :: rat) / 100"
    have a: "(51 :: rat) \<le> of_int k" and b: "(of_int k :: rat) \<le> 94" using 3 by simp_all
    have x1: "51 / 100 \<le> ?x" and x2: "?x \<le> 94 / 100" using a b by simp_all
    then have nn: "0 \<le> ?x" by linarith
    from double_upper [OF nn] double_lower [OF nn] x1 x2 show ?thesis
      unfolding js_div_def num_100 by linarith
  qed
qed

lemma primary_confidence_bounds:
  assumes "1 / 2 \<le> c" and "c \<le> 95 / 100"
  shows "1 / 2 \<le> confidence (primary_result e c) \<and> confidence (primary_result e c) \<le> 95 / 100"
proof -
  from round_primary [OF assms] have "50 \<le> Math_round (js_mul c (num 100))"
    and "Math_round (js_mul c (num 100)) \<le> 95" by simp_all
  from final_confidence [OF this] show ?thesis by (simp add: primary_result_def)
qed

lemma reduced_confidence:
  assumes "1 / 2 \<le> c" and "c \<le> 95 / 100" and "0 \<le> r" and "r < 1"
  shows "29 / 100 \<le> max (num (3 / 10)) (js_sub (js_sub c (num (2 / 10))) (js_mul r (num (2 / 10))))
     \<and> max (num (3 / 10)) (js_sub (js_sub c (num (2 / 10))) (js_mul r (num (2 / 10))))
         \<le> c - 19 / 100"
proof -
  define g where "g = num (2 / 10)"
  define h where "h = num (3 / 10)"
  define a where "a = double (c - g)"
  define b where "b = double (r * g)"
  have g1: "g \<le> 2 / 10 + 2 / 1000000" using num_upper [of "2 / 10"] unfolding g_def by linarith
  have g2: "2 / 10 - 2 / 1000000 \<le> g" using num_lower [of "2 / 10"] unfolding g_def by linarith
  have t1: "h \<le> 3 / 10 + 2 / 1000000" using num_upper [of "3 / 10"] unfolding h_def by linarith
  have t2: "3 / 10 - 2 / 1000000 \<le> h" using num_lower [of "3 / 10"] unfolding h_def by linarith
  have cg: "0 \<le> c - g" using assms(1) g1 by linarith
  have a1: "a \<le> c - g + 2 / 1000000"
    using double_upper [OF cg] assms(2) g2 unfolding a_def right_diff_distrib by linarith
  have a0: "0 \<le> a" unfolding a_def using cg by (rule double_nonneg)
  have g0: "0 \<le> g" using g2 by linarith
  have rg: "0 \<le> r * g" using assms(3) g0 by simp
  have b0: "0 \<le> b" unfolding b_def using rg by (rule double_nonneg)
  have "r * g \<le> 1 * g" using assms(4) g0 by (intro mult_right_mono) simp_all
  then have rg1: "r * g \<le> 21 / 100" using g1 by linarith
  have b1: "b \<le> 22 / 100" using double_upper [OF rg] rg1 unfolding b_def by linarith
  have ab: "\<bar>a - b\<bar> \<le> 1" using a0 a1 b0 b1 assms(2) g2 by linarith
  define D where "D = \<bar>double (a - b) - (a - b)\<bar>"
  have "1000000 * D \<le> \<bar>a - b\<bar> + 1" unfolding D_def by (rule double_near_scaled)
  moreover have "double (a - b) - (a - b) \<le> D" unfolding D_def by simp
  ultimately have "double (a - b) \<le> a - b + 2 / 1000000" using ab by linarith
  with b0 a1 g2 have d: "double (a - b) \<le> c - 19 / 100" by linarith
  from t1 assms(1) have "h \<le> c - 19 / 100" by linarith
  with d t2 have "29 / 100 \<le> max h (double (a - b)) \<and> max h (double (a - b)) \<le> c - 19 / 100"
    by linarith
  then show ?thesis unfolding js_sub_def js_mul_def a_def b_def g_def h_def .
qed

lemma round_gap:
  assumes "1 / 2 \<le> c" and "c \<le> 95 / 100" and "29 / 100 \<le> sc" and "sc \<le> c - 19 / 100"
  shows "0 \<le> Math_round (js_mul sc (num 100))
     \<and> Math_round (js_mul sc (num 100)) + 18 \<le> Math_round (js_mul c (num 100))"
proof -
  define ts where "ts = double (sc * 100)"
  define tp where "tp = double (c * 100)"
  have n1: "0 \<le> sc * 100" using assms(3) by linarith
  have n2: "0 \<le> c * 100" using assms(1) by linarith
  from double_upper [OF n1] assms have s1: "ts \<le> c * 100 - 19 + 1 / 1000" unfolding ts_def by linarith
  from double_lower [OF n1] assms have s0: "28 \<le> ts" unfolding ts_def by linarith
  from double_lower [OF n2] assms have p0: "c * 100 - 1 / 1000 \<le> tp" unfolding tp_def by linarith
  have f1: "of_int \<lfloor>ts + 1 / 2\<rfloor> \<le> ts + 1 / 2" by (rule of_int_floor_le)
  have f2: "tp + 1 / 2 < of_int \<lfloor>tp + 1 / 2\<rfloor> + 1" by linarith
  from f1 f2 s1 p0 have "(of_int \<lfloor>ts + 1 / 2\<rfloor> :: rat) + 18 < of_int \<lfloor>tp + 1 / 2\<rfloor> + 1"
    by linarith
  then have "(of_int (\<lfloor>ts + 1 / 2\<rfloor> + 18) :: rat) < of_int (\<lfloor>tp + 1 / 2\<rfloor> + 1)" by simp
  then have 1: "\<lfloor>ts + 1 / 2\<rfloor> + 18 < \<lfloor>tp + 1 / 2\<rfloor> + 1" by (simp only: of_int_less_iff)
  from s0 have "of_int 0 \<le> ts + 1 / 2" by simp
  then have 2: "0 \<le> \<lfloor>ts + 1 / 2\<rfloor>" by (simp only: le_floor_iff)
  from 1 2 show ?thesis unfolding Math_round_def js_mul_def num_100 ts_def tp_def by linarith
qed

lemma quotient_gap:
  assumes "0 \<le> ks" and "ks + 18 \<le> kp" and "kp \<le> 95"
  shows "js_div (of_int ks) (num 100) < js_div (of_int kp) (num 100)"
proof -
  define x where "x = (of_int ks :: rat) / 100"
  define y where "y = (of_int kp :: rat) / 100"
  have a: "(0 :: rat) \<le> of_int ks" and b: "(of_int ks :: rat) + 18 \<le> of_int kp"
    and c: "(of_int kp :: rat) \<le> 95"
    using assms by linarith+
  have nx: "0 \<le> x" and xy: "x + 18 / 100 \<le> y" and y1: "y \<le> 95 / 100"
    unfolding x_def y_def using a b c by (simp_all add: field_simps)
  have ny: "0 \<le> y" using nx xy by linarith
  from double_upper [OF nx] double_lower [OF ny] xy y1 have "double x < double y" by linarith
  then show ?thesis unfolding js_div_def num_100 x_def y_def .
qed

lemma secondary_below_primary:
  assumes "1 / 2 \<le> c" and "c \<le> 95 / 100" and "29 / 100 \<le> sc" and "sc \<le> c - 19 / 100"
  shows "confidence (secondary_result s sc) < confidence (primary_result e c)"
proof -
  from round_gap [OF assms] round_primary [OF assms(1,2)]
  have "0 \<le> Math_round (js_mul sc (num 100))"
    and "Math_round (js_mul sc (num 100)) + 18 \<le> Math_round (js_mul c (num 100))"
    and "Math_round (js_mul c (num 100)) \<le> 95" by simp_all
  from quotient_gap [OF this] show ?thesis
    by (simp add: primary_result_def secondary_result_def)
qed

lemma pick_index:
  assumes "is_double r" and "0 \<le> r" and "r < 1"
  shows "0 \<le> Math_floor (js_mul r 5) \<and> Math_floor (js_mul r 5) < 5"
proof -
  have nn: "0 \<le> r * 5" using assms(2) by linarith
  have "0 \<le> double (r * 5)" using nn by (rule double_nonneg)
  then have lo: "0 \<le> \<lfloor>double (r * 5)\<rfloor>" by simp
  have "double (r * 5) < 5"
  proof (cases "r < 4 / 5")
    case True
    with double_upper [OF nn] show ?thesis by linarith
  next
    case False
    then have r45: "4 / 5 \<le> r" by simp
    have "(2 :: rat) powi (- 1) \<le> \<bar>r\<bar>" and "\<bar>r\<bar> < 2 powi (- 1 + 1)"
      using r45 assms(3) by (simp_all add: power_int_minus_divide)
    from double_eval [OF this]
    have er: "double r = of_int (round_even (r / 2 powi (- 53))) * 2 powi (- 53)" by simp
    define m where "m = round_even (r / 2 powi (- 53))"
    from er assms(1) have rm: "r = of_int m / 2 ^ 53"
      by (simp add: is_double_def m_def power_int_minus_divide)
    with assms(3) have "(of_int m :: rat) < 2 ^ 53" by (simp add: field_simps)
    then have "m < 2 ^ 53" by (simp only: of_int_less_numeral_power_cancel_iff)
    then have "m \<le> 2 ^ 53 - 1" by simp
    then have "(of_int m :: rat) \<le> of_int (2 ^ 53 - 1)" by (simp only: of_int_le_iff)
    then have mb: "(of_int m :: rat) \<le> 2 ^ 53 - 1" by simp
    have "(2 :: rat) powi 2 \<le> \<bar>r * 5\<bar>" and "\<bar>r * 5\<bar> < 2 powi (2 + 1)"
      using r45 assms(3) by simp_all
    from double_eval [OF this]
    have ex: "double (r * 5) = of_int (round_even (r * 5 / 2 powi (- 50))) * 2 powi (- 50)"
      by simp
    have "r * 5 / 2 powi (- 50) = of_int m * 5 / 8"
      by (simp add: rm power_int_minus_divide)
    also have "\<dots> \<le> (2 ^ 53 - 1) * 5 / 8" using mb by simp
    also have "\<dots> < of_int (5 * 2 ^ 50 - 1) + 1 / 2" by simp
    finally have "round_even (r * 5 / 2 powi (- 50)) \<le> 5 * 2 ^ 50 - 1" by (rule round_even_below)
    then have "(of_int (round_even (r * 5 / 2 powi (- 50))) :: rat) \<le> of_int (5 * 2 ^ 50 - 1)"
      by (simp only: of_int_le_iff)
    then have "(of_int (round_even (r * 5 / 2 powi (- 50))) :: rat) \<le> 5 * 2 ^ 50 - 1" by simp
    then have "of_int (round_even (r * 5 / 2 powi (- 50))) * (2 :: rat) powi (- 50)
        \<le> (5 * 2 ^ 50 - 1) * 2 powi (- 50)"
      by (intro mult_right_mono) simp_all
    also have "\<dots> < 5" by (simp add: power_int_minus_divide)
    finally have "of_int (round_even (r * 5 / 2 powi (- 50))) * (2 :: rat) powi (- 50) < 5" .
    then show ?thesis by (simp only: ex)
  qed
  then have hi: "\<lfloor>double (r * 5)\<rfloor> < 5" by (simp add: floor_less_iff)
  from lo hi show ?thesis by (simp add: Math_floor_def js_mul_def)
qed

section \<open>Image analysis: properties\<close>

lemma at_index_in_set: "at_index xs i = Some x \<Longrightarrow> x \<in> set xs"
  by (auto simp: at_index_def split: if_splits)

lemma detect_in_table: "detect fileName r = Some e \<Longrightarrow> e \<in> set diseases"
  unfolding detect_def by (auto split: if_splits dest: at_index_in_set)

lemma length_diseases: "length diseases = 5"
  by (simp add: diseases_def)

lemma detect_some: "unit_interval r \<Longrightarrow> \<exists>e. detect fileName r = Some e"
  using pick_index [of r]
  by (simp add: unit_interval_def detect_def at_index_def length_diseases)

lemma find_other:
  "e \<in> set diseases \<Longrightarrow>
   \<exists>s. find (\<lambda>x. entryId x \<noteq> entryId e) diseases = Some s \<and> s \<in> set diseases
       \<and> entryId s \<noteq> entryId e"
  by (auto simp: diseases_def)

lemma set_insert_by: "set (insert_by cmp x ys) = insert x (set ys)"
  by (induction ys) auto

lemma length_insert_by: "length (insert_by cmp x ys) = Suc (length ys)"
  by (induction ys) auto

lemma set_array_sort: "set (array_sort cmp xs) = set xs"
  unfolding array_sort_def by (induction xs) (auto simp: set_insert_by)

lemma length_array_sort: "length (array_sort cmp xs) = length xs"
  unfolding array_sort_def by (induction xs) (auto simp: length_insert_by)

lemma by_confidence_desc_sign:
  assumes "confidence x = double p" and "confidence y = double q"
  shows "(by_confidence_desc x y \<le> 0) = (confidence y \<le> confidence x)"
  unfolding by_confidence_desc_def js_sub_def assms by (rule double_diff_sign)

lemma sorted_insert_by:
  assumes "sorted_wrt (\<lambda>a b. confidence b \<le> confidence a) ys"
    and "\<exists>p. confidence x = double p"
    and "\<forall>y \<in> set ys. \<exists>q. confidence y = double q"
  shows "sorted_wrt (\<lambda>a b. confidence b \<le> confidence a) (insert_by by_confidence_desc x ys)"
  using assms
proof (induction ys)
  case Nil
  then show ?case by simp
next
  case (Cons y ys)
  from Cons.prems(2) obtain p where p: "confidence x = double p" by blast
  from Cons.prems(3) obtain q where q: "confidence y = double q" by auto
  note sign = by_confidence_desc_sign [OF p q]
  show ?case
  proof (cases "by_confidence_desc x y \<le> 0")
    case True
    with sign have "confidence y \<le> confidence x" by simp
    with Cons.prems(1) True show ?thesis by auto
  next
    case False
    with sign have xy: "confidence x \<le> confidence y" by simp
    from Cons.prems have "sorted_wrt (\<lambda>a b. confidence b \<le> confidence a)
        (insert_by by_confidence_desc x ys)"
      by (intro Cons.IH) auto
    with Cons.prems(1) False xy show ?thesis by (auto simp: set_insert_by)
  qed
qed

lemma sorted_array_sort:
  assumes "\<forall>x \<in> set xs. \<exists>q. confidence x = double q"
  shows "sorted_wrt (\<lambda>a b. confidence b \<le> confidence a) (array_sort by_confidence_desc xs)"
  using assms
proof (induction xs)
  case Nil
  show ?case by (simp add: array_sort_def)
next
  case (Cons x xs)
  then have "sorted_wrt (\<lambda>a b. confidence b \<le> confidence a)
      (insert_by by_confidence_desc x (array_sort by_confidence_desc xs))"
    by (intro sorted_insert_by) (auto simp: set_array_sort)
  then show ?case by (simp add: array_sort_def)
qed

lemma array_sort_single: "array_sort cmp [p] = [p]"
  by (simp add: array_sort_def)

lemma array_sort_pair:
  "array_sort cmp [p, s] = (if cmp p s \<le> 0 then [p, s] else [s, p])"
  by (simp add: array_sort_def)

lemma analyze_try_Inl:
  "check_file f = Inl e \<Longrightarrow> analyze_try f d = Inl e"
  by (simp add: analyze_try_def)

lemma rounded_primary: "\<exists>q. confidence (primary_result e c) = double q"
  by (auto simp: primary_result_def js_div_def)

lemma rounded_secondary: "\<exists>q. confidence (secondary_result e c) = double q"
  by (auto simp: secondary_result_def js_div_def)

lemma analyze_try_shape:
  assumes "analyze_try f d = Inr rs"
  shows "\<exists>e c. e \<in> set diseases \<and> detect (toLowerCase (file_name f)) (pick_draw d) = Some e
           \<and> 1 / 2 \<le> c \<and> c \<le> 95 / 100
           \<and> (rs = array_sort by_confidence_desc [primary_result e c]
               \<or> (\<exists>s. s \<in> set diseases \<and> entryId s \<noteq> entryId e
                    \<and> rs = array_sort by_confidence_desc
                         [primary_result e c,
                          secondary_result s
                            (max (num (3 / 10))
                               (js_sub (js_sub c (num (2 / 10)))
                                  (js_mul (reduction_draw d) (num (2 / 10)))))]))"
proof -
  from assms obtain u where cf: "check_file f = Inr u"
    by (cases "check_file f") (simp_all add: analyze_try_def)
  from assms cf obtain e where de: "detect (toLowerCase (file_name f)) (pick_draw d) = Some e"
    by (cases "detect (toLowerCase (file_name f)) (pick_draw d)") (simp_all add: analyze_try_def)
  have mem: "e \<in> set diseases" using de by (rule detect_in_table)
  from find_other [OF mem] obtain s where
    fs: "find (\<lambda>x. entryId x \<noteq> entryId e) diseases = Some s"
    and sm: "s \<in> set diseases" and sn: "entryId s \<noteq> entryId e" by blast
  define c where "c = max (num (5 / 10)) (min (num (95 / 100))
      (js_add (baseConfidence e) (js_mul (js_sub (jitter_draw d) (num (5 / 10))) (num (2 / 10)))))"
  have b: "1 / 2 \<le> c \<and> c \<le> 95 / 100" unfolding c_def by (rule clamp_bounds)
  show ?thesis
  proof (cases "secondary_draw d > num (7 / 10)")
    case True
    with assms cf de fs have
      "rs = array_sort by_confidence_desc [primary_result e c,
              secondary_result s (max (num (3 / 10))
                 (js_sub (js_sub c (num (2 / 10))) (js_mul (reduction_draw d) (num (2 / 10)))))]"
      by (simp add: analyze_try_def Let_def c_def)
    with mem de b sm sn show ?thesis by (intro exI [of _ e] exI [of _ c]) auto
  next
    case False
    with assms cf de have "rs = array_sort by_confidence_desc [primary_result e c]"
      by (simp add: analyze_try_def Let_def c_def)
    with mem de b show ?thesis by (intro exI [of _ e] exI [of _ c]) auto
  qed
qed

lemma analyze_try_ordered:
  assumes "0 \<le> reduction_draw d" and "reduction_draw d < 1" and "analyze_try f d = Inr rs"
  shows "\<exists>e c. e \<in> set diseases \<and> detect (toLowerCase (file_name f)) (pick_draw d) = Some e
           \<and> 1 / 2 \<le> c \<and> c \<le> 95 / 100
           \<and> (rs = [primary_result e c]
               \<or> (\<exists>s sc. s \<in> set diseases \<and> entryId s \<noteq> entryId e
                    \<and> 29 / 100 \<le> sc \<and> sc \<le> c - 19 / 100
                    \<and> rs = [primary_result e c, secondary_result s sc]))"
proof -
  from analyze_try_shape [OF assms(3)] obtain e c where
    mem: "e \<in> set diseases" and de: "detect (toLowerCase (file_name f)) (pick_draw d) = Some e"
    and lo: "1 / 2 \<le> c" and hi: "c \<le> 95 / 100"
    and sh: "rs = array_sort by_confidence_desc [primary_result e c]
               \<or> (\<exists>s. s \<in> set diseases \<and> entryId s \<noteq> entryId e
                    \<and> rs = array_sort by_confidence_desc
                         [primary_result e c,
                          secondary_result s
                            (max (num (3 / 10))
                               (js_sub (js_sub c (num (2 / 10)))
                                  (js_mul (reduction_draw d) (num (2 / 10)))))])"
    by blast
  define sc where "sc = max (num (3 / 10))
      (js_sub (js_sub c (num (2 / 10))) (js_mul (reduction_draw d) (num (2 / 10))))"
  have red: "29 / 100 \<le> sc \<and> sc \<le> c - 19 / 100"
    unfolding sc_def using lo hi assms(1,2) by (rule reduced_confidence)
  from sh show ?thesis
  proof
    assume "rs = array_sort by_confidence_desc [primary_result e c]"
    then have "rs = [primary_result e c]" by (simp add: array_sort_single)
    with mem de lo hi show ?thesis by blast
  next
    assume "\<exists>s. s \<in> set diseases \<and> entryId s \<noteq> entryId e
                    \<and> rs = array_sort by_confidence_desc [primary_result e c,
                          secondary_result s
                            (max (num (3 / 10))
                               (js_sub (js_sub c (num (2 / 10)))
                                  (js_mul (reduction_draw d) (num (2 / 10)))))]"
    then obtain s where sm: "s \<in> set diseases" and sn: "entryId s \<noteq> entryId e"
      and r: "rs = array_sort by_confidence_desc [primary_result e c, secondary_result s sc]"
      unfolding sc_def by blast
    from red have r1: "29 / 100 \<le> sc" and r2: "sc \<le> c - 19 / 100" by simp_all
    have lt: "confidence (secondary_result s sc) < confidence (primary_result e c)"
      using lo hi r1 r2 by (rule secondary_below_primary)
    then have "confidence (secondary_result s sc) - confidence (primary_result e c) \<le> 0"
      by simp
    then have "by_confidence_desc (primary_result e c) (secondary_result s sc) \<le> 0"
      unfolding by_confidence_desc_def js_sub_def by (rule double_nonpos)
    with r have "rs = [primary_result e c, secondary_result s sc]"
      by (simp add: array_sort_pair)
    with mem de lo hi sm sn r1 r2 show ?thesis by blast
  qed
qed

lemma analyzeImage_success:
  "success (analyzeImage f d t0 t1) \<Longrightarrow>
   \<exists>rs. analyze_try f d = Inr rs
      \<and> analyzeImage f d t0 t1 =
          \<lparr>success = True, results = rs, error = None, processingTime = t1 - t0\<rparr>"
  by (cases "analyze_try f d") (simp_all add: analyzeImage_def)

lemma analyze_try_valid:
  assumes "unit_interval (pick_draw d)" and "check_file f = Inr u"
  shows "\<exists>rs. analyze_try f d = Inr rs"
proof -
  from detect_some [OF assms(1)] obtain e
    where "detect (toLowerCase (file_name f)) (pick_draw d) = Some e" by blast
  with assms(2) show ?thesis by (simp add: analyze_try_def Let_def)
qed

lemma description_primary: "startsWith (description (primary_result e c)) ''Detected ''"
  by (simp add: primary_result_def)

lemma description_secondary: "startsWith (description (secondary_result e c)) ''Possible ''"
  by (simp add: secondary_result_def)

lemma table_triples:
  "map (\<lambda>e. (entryId e, entryName e, entrySeverity e)) diseases =
     [(''d1'', ''Rice Blast'', High), (''d2'', ''Bacterial Leaf Blight'', Medium),
      (''d3'', ''Brown Spot'', Medium), (''d4'', ''Sheath Blight'', High),
      (''d5'', ''Tungro Virus'', High)]"
  by (simp add: diseases_def)

lemma entry_from_table:
  assumes "e \<in> set diseases"
  shows "(entryId e, entryName e, entrySeverity e)
     \<in> set [(''d1'', ''Rice Blast'', High), (''d2'', ''Bacterial Leaf Blight'', Medium),
             (''d3'', ''Brown Spot'', Medium), (''d4'', ''Sheath Blight'', High),
             (''d5'', ''Tungro Virus'', High)]"
proof -
  from assms have "(\<lambda>e. (entryId e, entryName e, entrySeverity e)) e
      \<in> (\<lambda>e. (entryId e, entryName e, entrySeverity e)) ` set diseases"
    by (rule imageI)
  then have "(entryId e, entryName e, entrySeverity e)
      \<in> set (map (\<lambda>e. (entryId e, entryName e, entrySeverity e)) diseases)"
    by (simp only: set_map)
  then show ?thesis by (simp only: table_triples)
qed

lemma primary_from_table:
  "e \<in> set diseases \<Longrightarrow>
   (diseaseId (primary_result e c), diseaseName (primary_result e c), severity (primary_result e c))
     \<in> set [(''d1'', ''Rice Blast'', High), (''d2'', ''Bacterial Leaf Blight'', Medium),
             (''d3'', ''Brown Spot'', Medium), (''d4'', ''Sheath Blight'', High),
             (''d5'', ''Tungro Virus'', High)]"
  using entry_from_table [of e] by (simp add: primary_result_def)

lemma secondary_from_table:
  "e \<in> set diseases \<Longrightarrow>
   (diseaseId (secondary_result e c), diseaseName (secondary_result e c),
    severity (secondary_result e c))
     \<in> set [(''d1'', ''Rice Blast'', High), (''d2'', ''Bacterial Leaf Blight'', Medium),
             (''d3'', ''Brown Spot'', Medium), (''d4'', ''Sheath Blight'', High),
             (''d5'', ''Tungro Virus'', High)]"
  using entry_from_table [of e] by (simp add: secondary_result_def)

lemma check_file_cases:
  "check_file f = Inr ()
   \<or> check_file f = Inl (Error ''Invalid file type. Please upload an image file.'')
   \<or> check_file f = Inl (Error ''Image file too large. Please use an image smaller than 10MB.'')"
  by (simp add: check_file_def)

lemma check_file_ok_iff:
  "(check_file f = Inr ()) = (startsWith (file_type f) ''image/'' \<and> file_size f \<le> 10 * 1024 * 1024)"
  by (auto simp: check_file_def)

lemma lower_blast: "toLowerCase ''my_BLAST.png'' = ''my_blast.png''"
  by code_simp

lemma analyze_try_eval:
  assumes "check_file f = Inr ()"
    and "detect (toLowerCase (file_name f)) (pick_draw d) = Some e"
    and "find (\<lambda>x. entryId x \<noteq> entryId e) diseases = Some s"
    and "num (7 / 10) < secondary_draw d"
    and "max (num (5 / 10)) (min (num (95 / 100))
          (js_add (baseConfidence e) (js_mul (js_sub (jitter_draw d) (num (5 / 10))) (num (2 / 10))))) = c"
    and "max (num (3 / 10))
          (js_sub (js_sub c (num (2 / 10))) (js_mul (reduction_draw d) (num (2 / 10)))) = sc"
  shows "analyze_try f d
     = Inr (array_sort by_confidence_desc [primary_result e c, secondary_result s sc])"
  using assms by (simp add: analyze_try_def Let_def)

lemma ev1: "max (num (5 / 10)) (min (num (95 / 100))
          (js_add (baseConfidence rice_blast) (js_mul (js_sub (jitter_draw high_draws) (num (5 / 10))) (num (2 / 10)))))
     = 8106479329266893 / 9007199254740992"
  by code_simp

lemma ev2: "max (num (3 / 10))
          (js_sub (js_sub (8106479329266893 / 9007199254740992) (num (2 / 10))) (js_mul (reduction_draw high_draws) (num (2 / 10))))
     = 1463669878895411 / 2251799813685248"
  by code_simp

lemma ev3: "num (7 / 10) < secondary_draw high_draws"
  by code_simp


lemma ev4: "primary_result rice_blast (8106479329266893 / 9007199254740992)
     = \<lparr>diseaseId = ''d1'', diseaseName = ''Rice Blast'',
        confidence = 8106479329266893 / 9007199254740992,
        description = ''Detected Rice Blast with 90% confidence'', severity = High\<rparr>"
  by code_simp

lemma ev5: "secondary_result leaf_blight (1463669878895411 / 2251799813685248)
     = \<lparr>diseaseId = ''d2'', diseaseName = ''Bacterial Leaf Blight'',
        confidence = 5854679515581645 / 9007199254740992,
        description = ''Possible Bacterial Leaf Blight with 65% confidence'', severity = Medium\<rparr>"
  by code_simp

lemma try_blast: "analyze_try blast_photo high_draws = Inr
  [\<lparr>diseaseId = ''d1'', diseaseName = ''Rice Blast'',
     confidence = 8106479329266893 / 9007199254740992,
     description = ''Detected Rice Blast with 90% confidence'', severity = High\<rparr>,
   \<lparr>diseaseId = ''d2'', diseaseName = ''Bacterial Leaf Blight'',
     confidence = 5854679515581645 / 9007199254740992,
     description = ''Possible Bacterial Leaf Blight with 65% confidence'', severity = Medium\<rparr>]"
proof -
  have cf: "check_file blast_photo = Inr ()"
    by (simp add: check_file_def blast_photo_def)
  have dt: "detect (toLowerCase (file_name blast_photo)) (pick_draw high_draws) = Some rice_blast"
    by (simp add: blast_photo_def lower_blast detect_def at_index_def diseases_def rice_blast_def)
  have fo: "find (\<lambda>x. entryId x \<noteq> entryId rice_blast) diseases = Some leaf_blight"
    by (simp add: diseases_def rice_blast_def leaf_blight_def)
  have "(5854679515581645 / 9007199254740992 :: rat) - 8106479329266893 / 9007199254740992 \<le> 0"
    by simp
  then have "double (5854679515581645 / 9007199254740992 - 8106479329266893 / 9007199254740992) \<le> 0"
    by (rule double_nonpos)
  then have ord: "by_confidence_desc
      (primary_result rice_blast (8106479329266893 / 9007199254740992))
      (secondary_result leaf_blight (1463669878895411 / 2251799813685248)) \<le> 0"
    unfolding ev4 ev5 by (simp add: by_confidence_desc_def js_sub_def)
  from analyze_try_eval [OF cf dt fo ev3 ev1 ev2] ord
  have "analyze_try blast_photo high_draws
      = Inr [primary_result rice_blast (8106479329266893 / 9007199254740992),
             secondary_result leaf_blight (1463669878895411 / 2251799813685248)]"
    by (simp add: array_sort_pair)
  then show ?thesis unfolding ev4 ev5 .
qed

lemma random_ok_high: "random_ok high_draws"
  by (simp add: random_ok_def unit_interval_def high_draws_def
      is_double_half is_double_quarter is_double_three_quarters)

text \<open>
  C3, as first stated (every file with an image MIME type and size at most 10MB is
  accepted) fails for \<open>validateImage\<close>: a 2048-byte \<open>image/gif\<close> file is rejected.
\<close>

theorem validateImage_rejects_gif:
  "startsWith (file_type gif_file) ''image/'' \<and> file_size gif_file \<le> 10 * 1024 * 1024
   \<and> \<not> valid (validateImage gif_file)"
  by (simp add: gif_file_def validateImage_def getSupportedFormats_def Let_def)

text \<open>
  C3 (as amended). The checks that open \<open>analyzeImage\<close> fail exactly when the MIME type does
  not start with \<open>image/\<close> or the size exceeds \<open>10 * 1024 * 1024\<close> bytes, and then with one of
  two fixed messages. \<open>validateImage\<close>, the check the scanner page runs when a file is chosen,
  is stricter: it fails exactly when the MIME type is not one of the four supported formats
  or the size exceeds \<open>10 * 1024 * 1024\<close> bytes, again with one of two fixed messages. Neither
  check depends on the bytes of the file.
\<close>

theorem image_validation:
  "(check_file f \<noteq> Inr ())
     = (\<not> startsWith (file_type f) ''image/'' \<or> file_size f > 10 * 1024 * 1024)
   \<and> (check_file f = Inr ()
      \<or> check_file f = Inl (Error ''Invalid file type. Please upload an image file.'')
      \<or> check_file f = Inl (Error ''Image file too large. Please use an image smaller than 10MB.''))
   \<and> check_file (f\<lparr>file_content := bytes\<rparr>) = check_file f
   \<and> (\<not> valid (validateImage f))
     = (file_type f \<notin> set [''image/jpeg'', ''image/jpg'', ''image/png'', ''image/webp'']
        \<or> file_size f > 10 * 1024 * 1024)
   \<and> (valid (validateImage f) \<and> validation_error (validateImage f) = None
      \<or> validation_error (validateImage f)
          = Some ''Unsupported format. Please use: image/jpeg, image/jpg, image/png, image/webp''
      \<or> validation_error (validateImage f) = Some ''File too large. Maximum size is 10MB.'')
   \<and> validateImage (f\<lparr>file_content := bytes\<rparr>) = validateImage f"
proof -
  have a: "(check_file f \<noteq> Inr ())
     = (\<not> startsWith (file_type f) ''image/'' \<or> file_size f > 10 * 1024 * 1024)"
    by (auto simp: check_file_ok_iff)
  have b: "check_file (f\<lparr>file_content := bytes\<rparr>) = check_file f"
    by (simp add: check_file_def)
  have c: "(\<not> valid (validateImage f))
     = (file_type f \<notin> set [''image/jpeg'', ''image/jpg'', ''image/png'', ''image/webp'']
        \<or> file_size f > 10 * 1024 * 1024)"
    by (simp add: validateImage_def getSupportedFormats_def Let_def)
  have d: "valid (validateImage f) \<and> validation_error (validateImage f) = None
      \<or> validation_error (validateImage f)
          = Some ''Unsupported format. Please use: image/jpeg, image/jpg, image/png, image/webp''
      \<or> validation_error (validateImage f) = Some ''File too large. Maximum size is 10MB.''"
    by (simp add: validateImage_def getSupportedFormats_def Let_def)
  have e: "validateImage (f\<lparr>file_content := bytes\<rparr>) = validateImage f"
    by (simp add: validateImage_def)
  from a check_file_cases [of f] b c d e show ?thesis by blast
qed

theorem image_validation_witness:
  "check_file gif_file = Inr () \<and> \<not> valid (validateImage gif_file)
   \<and> check_file text_file = Inl (Error ''Invalid file type. Please upload an image file.'')
   \<and> valid (validateImage blast_photo) \<and> check_file blast_photo = Inr ()"
  using image_validation [of gif_file "[]"] image_validation [of text_file "[]"]
    image_validation [of blast_photo "[]"]
  by (simp add: gif_file_def text_file_def blast_photo_def check_file_def)

text \<open>
  C4. For draws that are doubles in \<open>[0, 1)\<close> and a successful analysis, computed in double
  arithmetic as the code does, the results are the primary detection (the one described as
  \<open>Detected ...\<close>), with rounded confidence in \<open>[0.5, 0.95]\<close>, followed by at most one
  secondary detection (\<open>Possible ...\<close>), whose rounded confidence is strictly below the
  primary's and whose \<open>diseaseId\<close> differs from it.
\<close>

theorem confidence_bounds:
  assumes "random_ok d" and "success (analyzeImage f d t0 t1)"
  shows "\<exists>p rest. results (analyzeImage f d t0 t1) = p # rest
          \<and> startsWith (description p) ''Detected ''
          \<and> 1 / 2 \<le> confidence p \<and> confidence p \<le> 95 / 100
          \<and> length rest \<le> 1
          \<and> list_all (\<lambda>s. startsWith (description s) ''Possible ''
                           \<and> confidence s < confidence p \<and> diseaseId s \<noteq> diseaseId p) rest"
proof -
  from analyzeImage_success [OF assms(2)] obtain rs where
    t: "analyze_try f d = Inr rs" and r: "results (analyzeImage f d t0 t1) = rs"
    by auto
  have nn: "0 \<le> reduction_draw d" and n1: "reduction_draw d < 1"
    using assms(1) by (simp_all add: random_ok_def unit_interval_def)
  from analyze_try_ordered [OF nn n1 t] obtain e c where
    lo: "1 / 2 \<le> c" and hi: "c \<le> 95 / 100"
    and sh: "rs = [primary_result e c]
               \<or> (\<exists>s sc. s \<in> set diseases \<and> entryId s \<noteq> entryId e
                    \<and> 29 / 100 \<le> sc \<and> sc \<le> c - 19 / 100
                    \<and> rs = [primary_result e c, secondary_result s sc])"
    by blast
  note pb = primary_confidence_bounds [OF lo hi, of e]
  from sh show ?thesis
  proof
    assume "rs = [primary_result e c]"
    with r pb show ?thesis by (simp add: description_primary)
  next
    assume "\<exists>s sc. s \<in> set diseases \<and> entryId s \<noteq> entryId e
                    \<and> 29 / 100 \<le> sc \<and> sc \<le> c - 19 / 100
                    \<and> rs = [primary_result e c, secondary_result s sc]"
    then obtain s sc where sn: "entryId s \<noteq> entryId e"
      and r1: "29 / 100 \<le> sc" and r2: "sc \<le> c - 19 / 100"
      and rs: "rs = [primary_result e c, secondary_result s sc]" by blast
    have lt: "confidence (secondary_result s sc) < confidence (primary_result e c)"
      using lo hi r1 r2 by (rule secondary_below_primary)
    have ne: "diseaseId (secondary_result s sc) \<noteq> diseaseId (primary_result e c)"
      using sn by (simp add: primary_result_def secondary_result_def)
    from r rs pb lt ne show ?thesis
      by (simp add: description_primary description_secondary)
  qed
qed

theorem confidence_bounds_witness:
  "random_ok high_draws \<and> success (analyzeImage blast_photo high_draws 0 2500)
   \<and> (\<exists>p rest. results (analyzeImage blast_photo high_draws 0 2500) = p # rest
         \<and> confidence p = 8106479329266893 / 9007199254740992
         \<and> map confidence rest = [5854679515581645 / 9007199254740992]
         \<and> 1 / 2 \<le> confidence p \<and> confidence p \<le> 95 / 100
         \<and> list_all (\<lambda>s. confidence s < confidence p \<and> diseaseId s \<noteq> diseaseId p) rest)"
proof -
  have s: "success (analyzeImage blast_photo high_draws 0 2500)"
    by (simp add: analyzeImage_def try_blast)
  from confidence_bounds [OF random_ok_high s] random_ok_high s show ?thesis
    by (simp add: analyzeImage_def try_blast)
qed

text \<open>
  C5. For a file that passes the checks and whose lowercased name contains \<open>blast\<close>, and
  draws that are doubles in \<open>[0, 1)\<close>, the analysis succeeds and its first result is \<open>d1\<close>,
  Rice Blast.
\<close>

theorem blast_primary:
  assumes "random_ok d" and "check_file f = Inr ()"
    and "includes_str (toLowerCase (file_name f)) ''blast''"
  shows "\<exists>p rest. analyzeImage f d t0 t1
            = \<lparr>success = True, results = p # rest, error = None, processingTime = t1 - t0\<rparr>
          \<and> diseaseId p = ''d1'' \<and> diseaseName p = ''Rice Blast''"
proof -
  have pk: "unit_interval (pick_draw d)" and nn: "0 \<le> reduction_draw d"
    and n1: "reduction_draw d < 1"
    using assms(1) by (simp_all add: random_ok_def unit_interval_def)
  from analyze_try_valid [OF pk assms(2)] obtain rs where t: "analyze_try f d = Inr rs" by blast
  have de: "detect (toLowerCase (file_name f)) (pick_draw d)
      = Some \<lparr>entryId = ''d1'', entryName = ''Rice Blast'', baseConfidence = num (85 / 100),
              entrySeverity = High\<rparr>"
    using assms(3) by (simp add: detect_def at_index_def diseases_def)
  from analyze_try_ordered [OF nn n1 t] de obtain c rest where
    "rs = primary_result \<lparr>entryId = ''d1'', entryName = ''Rice Blast'',
              baseConfidence = num (85 / 100), entrySeverity = High\<rparr> c # rest"
    by auto
  then have "\<exists>p rest. rs = p # rest \<and> diseaseId p = ''d1'' \<and> diseaseName p = ''Rice Blast''"
    by (simp add: primary_result_def)
  with t show ?thesis by (auto simp: analyzeImage_def)
qed

theorem blast_primary_witness:
  "random_ok high_draws \<and> check_file blast_photo = Inr ()
   \<and> includes_str (toLowerCase (file_name blast_photo)) ''blast''
   \<and> diseaseId (hd (results (analyzeImage blast_photo high_draws 0 2500))) = ''d1''"
proof -
  have c: "check_file blast_photo = Inr ()"
    by (simp add: check_file_def blast_photo_def)
  have i: "includes_str (toLowerCase (file_name blast_photo)) ''blast''"
    by (simp add: blast_photo_def lower_blast)
  from blast_primary [OF random_ok_high c i, of 0 2500] obtain p rest where
    "results (analyzeImage blast_photo high_draws 0 2500) = p # rest" and "diseaseId p = ''d1''"
    by auto
  with random_ok_high c i show ?thesis by simp
qed

text \<open>
  C6. The results of \<open>analyzeImage\<close> are in descending order of confidence, for every file
  and all draws.
\<close>

theorem results_sorted:
  "sorted_wrt (\<lambda>a b. confidence b \<le> confidence a) (results (analyzeImage f d t0 t1))"
proof (cases "analyze_try f d")
  case (Inl e)
  then show ?thesis by (simp add: analyzeImage_def)
next
  case (Inr rs)
  from analyze_try_shape [OF Inr] obtain xs where "rs = array_sort by_confidence_desc xs"
    and "\<forall>x \<in> set xs. \<exists>q. confidence x = double q"
    using rounded_primary rounded_secondary by fastforce
  then have "sorted_wrt (\<lambda>a b. confidence b \<le> confidence a) rs"
    by (simp add: sorted_array_sort)
  with Inr show ?thesis by (simp add: analyzeImage_def)
qed

text \<open>
  C8. Every throw inside \<open>analyzeImage\<close> is caught, so the function always returns a result
  record. For draws that are doubles in \<open>[0, 1)\<close> the result has \<open>success = false\<close> exactly when the file
  checks fail; it then has no results and carries the message of the failed check, and
  otherwise it has \<open>success = true\<close> and no error.
\<close>

theorem analyzeImage_total:
  assumes "random_ok d"
  shows "(\<not> success (analyzeImage f d t0 t1)) = (check_file f \<noteq> Inr ())
     \<and> (case check_file f of
          Inl e \<Rightarrow> analyzeImage f d t0 t1
                     = \<lparr>success = False, results = [], error = Some (message e),
                        processingTime = t1 - t0\<rparr>
                   \<and> (message e = ''Invalid file type. Please upload an image file.''
                      \<or> message e = ''Image file too large. Please use an image smaller than 10MB.'')
        | Inr u \<Rightarrow> \<exists>rs. analyzeImage f d t0 t1
                     = \<lparr>success = True, results = rs, error = None, processingTime = t1 - t0\<rparr>)"
proof (cases "check_file f")
  case (Inl e)
  then have "analyze_try f d = Inl e" by (rule analyze_try_Inl)
  then have r: "analyzeImage f d t0 t1
      = \<lparr>success = False, results = [], error = Some (message e), processingTime = t1 - t0\<rparr>"
    by (simp add: analyzeImage_def)
  have m: "message e = ''Invalid file type. Please upload an image file.''
      \<or> message e = ''Image file too large. Please use an image smaller than 10MB.''"
    using check_file_cases [of f] Inl by auto
  from Inl r m show ?thesis by simp
next
  case (Inr u)
  have pk: "unit_interval (pick_draw d)" using assms by (simp add: random_ok_def)
  from analyze_try_valid [OF pk Inr] obtain rs where "analyze_try f d = Inr rs" by blast
  then have "analyzeImage f d t0 t1
      = \<lparr>success = True, results = rs, error = None, processingTime = t1 - t0\<rparr>"
    by (simp add: analyzeImage_def)
  with Inr show ?thesis by simp
qed

theorem analyzeImage_total_witness:
  "random_ok high_draws
   \<and> analyzeImage text_file high_draws 0 1
       = \<lparr>success = False, results = [],
          error = Some ''Invalid file type. Please upload an image file.'', processingTime = 1\<rparr>
   \<and> success (analyzeImage blast_photo high_draws 0 2500)
   \<and> error (analyzeImage blast_photo high_draws 0 2500) = None"
proof -
  have t: "check_file text_file = Inl (Error ''Invalid file type. Please upload an image file.'')"
    by (simp add: check_file_def text_file_def)
  have b: "check_file blast_photo = Inr ()"
    by (simp add: check_file_def blast_photo_def)
  from analyzeImage_total [OF random_ok_high, of text_file 0 1] t
  have 1: "analyzeImage text_file high_draws 0 1
       = \<lparr>success = False, results = [],
          error = Some ''Invalid file type. Please upload an image file.'', processingTime = 1\<rparr>"
    by simp
  from analyzeImage_total [OF random_ok_high, of blast_photo 0 2500] b
  have 2: "success (analyzeImage blast_photo high_draws 0 2500)
     \<and> error (analyzeImage blast_photo high_draws 0 2500) = None"
    by auto
  from random_ok_high 1 2 show ?thesis by simp
qed

text \<open>
  C9. A successful result has no error, one or two results, and every result takes its
  \<open>diseaseId\<close>, \<open>diseaseName\<close> and \<open>severity\<close> from one row of the five-row table; the
  severity is one of \<open>Low\<close>, \<open>Medium\<close>, \<open>High\<close>.
\<close>

theorem success_shape:
  assumes "success (analyzeImage f d t0 t1)"
  shows "error (analyzeImage f d t0 t1) = None
     \<and> (length (results (analyzeImage f d t0 t1)) = 1 \<or> length (results (analyzeImage f d t0 t1)) = 2)
     \<and> list_all (\<lambda>x. (diseaseId x, diseaseName x, severity x)
                       \<in> set [(''d1'', ''Rice Blast'', High), (''d2'', ''Bacterial Leaf Blight'', Medium),
                               (''d3'', ''Brown Spot'', Medium), (''d4'', ''Sheath Blight'', High),
                               (''d5'', ''Tungro Virus'', High)]
                     \<and> severity x \<in> {Low, Medium, High})
          (results (analyzeImage f d t0 t1))"
proof -
  let ?T = "[(''d1'', ''Rice Blast'', High), (''d2'', ''Bacterial Leaf Blight'', Medium),
             (''d3'', ''Brown Spot'', Medium), (''d4'', ''Sheath Blight'', High),
             (''d5'', ''Tungro Virus'', High)]"
  let ?P = "\<lambda>x. (diseaseId x, diseaseName x, severity x) \<in> set ?T \<and> severity x \<in> {Low, Medium, High}"
  from analyzeImage_success [OF assms] obtain rs where
    t: "analyze_try f d = Inr rs" and r: "results (analyzeImage f d t0 t1) = rs"
    and er: "error (analyzeImage f d t0 t1) = None"
    by auto
  have sev: "\<And>x::DiseaseDetectionResult. severity x \<in> {Low, Medium, High}"
  proof -
    fix x :: DiseaseDetectionResult
    show "severity x \<in> {Low, Medium, High}" by (cases "severity x") simp_all
  qed
  from analyze_try_shape [OF t] obtain e c where mem: "e \<in> set diseases"
    and sh: "rs = array_sort by_confidence_desc [primary_result e c]
               \<or> (\<exists>s. s \<in> set diseases \<and> entryId s \<noteq> entryId e
                    \<and> rs = array_sort by_confidence_desc
                         [primary_result e c,
                          secondary_result s
                            (max (num (3 / 10))
                               (js_sub (js_sub c (num (2 / 10)))
                                  (js_mul (reduction_draw d) (num (2 / 10)))))])"
    by blast
  from sh have "(length rs = 1 \<or> length rs = 2) \<and> list_all ?P rs"
  proof
    assume a: "rs = array_sort by_confidence_desc [primary_result e c]"
    have "length rs = 1" using a by (simp add: length_array_sort)
    moreover have "set rs = {primary_result e c}" using a by (simp add: set_array_sort)
    then have "list_all ?P rs"
      using primary_from_table [OF mem, of c] sev by (simp add: list_all_iff)
    ultimately show ?thesis by blast
  next
    assume "\<exists>s. s \<in> set diseases \<and> entryId s \<noteq> entryId e
                    \<and> rs = array_sort by_confidence_desc
                         [primary_result e c,
                          secondary_result s
                            (max (num (3 / 10))
                               (js_sub (js_sub c (num (2 / 10)))
                                  (js_mul (reduction_draw d) (num (2 / 10)))))]"
    then obtain s sc where sm: "s \<in> set diseases"
      and a: "rs = array_sort by_confidence_desc [primary_result e c, secondary_result s sc]"
      by blast
    have "length rs = 2" using a by (simp add: length_array_sort)
    moreover have "set rs = {primary_result e c, secondary_result s sc}"
      using a by (simp add: set_array_sort)
    then have "list_all ?P rs"
      using primary_from_table [OF mem, of c] secondary_from_table [OF sm, of sc] sev
      by (simp add: list_all_iff)
    ultimately show ?thesis by blast
  qed
  with r er show ?thesis by simp
qed

theorem success_shape_witness:
  "success (analyzeImage blast_photo high_draws 0 2500)
   \<and> error (analyzeImage blast_photo high_draws 0 2500) = None
   \<and> length (results (analyzeImage blast_photo high_draws 0 2500)) = 2
   \<and> map severity (results (analyzeImage blast_photo high_draws 0 2500)) = [High, Medium]"
proof -
  have s: "success (analyzeImage blast_photo high_draws 0 2500)"
    by (simp add: analyzeImage_def try_blast)
  from success_shape [OF s] s show ?thesis
    by (simp add: analyzeImage_def try_blast)
qed

section \<open>Local-first store: properties\<close>

lemma trim_leaf: "trim ''Leaf Smut'' = ''Leaf Smut''"
  by code_simp

lemma trim_black: "trim ''Black spots on leaves'' \<noteq> []"
  by code_simp

lemma form_filled_valid: "validateForm report_form_filled = None"
  by code_simp

lemma offline_not_online: "\<not> isOnline (useNetworkStatus offline_cells)"
  by (simp add: useNetworkStatus_def offline_cells_def)

lemma add_offline_storage:
  "storage (update_handleSubmit now editor_offline) = [''localDiseases'' \<mapsto> diseases_json [brown_spot]]"
  using offline_not_online
  by (simp add: update_handleSubmit_def editor_offline_def leaf_smut_form_def trim_leaf trim_black
      truthy_def Let_def)

lemma add_offline_length:
  "length (page_diseases (update_handleSubmit now editor_offline)) = 2"
  using offline_not_online
  by (simp add: update_handleSubmit_def editor_offline_def leaf_smut_form_def trim_leaf trim_black
      truthy_def Let_def)

lemma report_offline_result:
  "report_handleSubmit now stamp report_offline
     = report_offline\<lparr>alerts := [''Internet connection required to submit reports'']\<rparr>"
  using offline_not_online
  by (simp add: report_handleSubmit_def form_filled_valid report_offline_def)

lemma page_diseases_editor: "page_diseases editor_offline = [brown_spot]"
  by (simp add: editor_offline_def)

lemma delete_effect:
  "page_diseases (handleDelete True i s) = filter (\<lambda>d. disease_id d \<noteq> i) (page_diseases s)
   \<and> (if isOnline (useNetworkStatus (network s))
      then storage (handleDelete True i s) = storage s
         \<and> console (handleDelete True i s) = console s @ [(''Deleting from server...'', JString i)]
      else storage (handleDelete True i s)
             = (storage s)(''localDiseases'' \<mapsto> diseases_json (page_diseases (handleDelete True i s)))
         \<and> console (handleDelete True i s) = console s)"
  by (simp add: handleDelete_def Let_def)

lemma submit_effect:
  assumes "trim (form_name (formData s)) \<noteq> []" and "trim (form_description (formData s)) \<noteq> []"
  shows "if isOnline (useNetworkStatus (network s))
      then storage (update_handleSubmit now s) = storage s
         \<and> console (update_handleSubmit now s)
             = console s @ [(''Syncing with server...'', disease_json (newDisease now s))]
      else console (update_handleSubmit now s) = console s
         \<and> storage (update_handleSubmit now s) ''localDiseases'' \<noteq> None
         \<and> (\<forall>k. k = ''localDiseases'' \<or> storage (update_handleSubmit now s) k = storage s k)"
  using assms by (simp add: update_handleSubmit_def Let_def)

lemma report_effect:
  assumes "validateForm (report_formData r) = None"
  shows "if isOnline (useNetworkStatus (network r))
      then storage (report_handleSubmit now stamp r) = storage r
         \<and> submitted (report_handleSubmit now stamp r)
         \<and> console (report_handleSubmit now stamp r)
             = console r @ [(''Report submitted:'',
                  reportData (report_formData r) (images r) stamp now)]
      else report_handleSubmit now stamp r
             = r\<lparr>alerts := alerts r @ [''Internet connection required to submit reports'']\<rparr>"
  using assms by (simp add: report_handleSubmit_def)

lemma form_example_ok:
  "trim (form_name (formData editor_offline)) \<noteq> []
   \<and> trim (form_description (formData editor_offline)) \<noteq> []"
  by (simp add: editor_offline_def leaf_smut_form_def trim_leaf trim_black)

lemma online_initial: "isOnline (useNetworkStatus initial_cells)"
  by (simp add: useNetworkStatus_def initial_cells_def)

text \<open>
  C1, as first stated, fails twice. Adding a record while offline stores the collection as
  it was before the addition (the handler serializes the \<open>diseases\<close> of its render), and
  submitting a valid report while offline is refused: nothing is stored and nothing logged.
\<close>

theorem offline_actions_counterexample:
  "storage (update_handleSubmit 1718000000000 editor_offline) ''localDiseases''
     = Some (diseases_json (page_diseases editor_offline))
   \<and> storage (update_handleSubmit 1718000000000 editor_offline) ''localDiseases''
     \<noteq> Some (diseases_json (page_diseases (update_handleSubmit 1718000000000 editor_offline)))
   \<and> validateForm (report_formData report_offline) = None
   \<and> storage (report_handleSubmit 1718000000000 ''2024-06-10T06:13:20.000Z'' report_offline)
     = Map.empty
   \<and> console (report_handleSubmit 1718000000000 ''2024-06-10T06:13:20.000Z'' report_offline) = []"
proof -
  have 1: "storage (update_handleSubmit 1718000000000 editor_offline) ''localDiseases''
     = Some (diseases_json (page_diseases editor_offline))"
    by (simp add: add_offline_storage page_diseases_editor)
  have "length (page_diseases (update_handleSubmit 1718000000000 editor_offline))
      \<noteq> length (page_diseases editor_offline)"
    by (simp add: add_offline_length page_diseases_editor)
  then have "diseases_json (page_diseases (update_handleSubmit 1718000000000 editor_offline))
      \<noteq> diseases_json (page_diseases editor_offline)"
    by (auto simp: diseases_json_def dest: map_eq_imp_length_eq)
  with 1 have 2: "storage (update_handleSubmit 1718000000000 editor_offline) ''localDiseases''
     \<noteq> Some (diseases_json (page_diseases (update_handleSubmit 1718000000000 editor_offline)))"
    by simp
  have 3: "validateForm (report_formData report_offline) = None"
    by (simp add: report_offline_def form_filled_valid)
  have 4: "storage (report_handleSubmit 1718000000000 ''2024-06-10T06:13:20.000Z'' report_offline)
     = Map.empty"
    by (simp add: report_offline_result) (simp add: report_offline_def)
  have 5: "console (report_handleSubmit 1718000000000 ''2024-06-10T06:13:20.000Z'' report_offline) = []"
    by (simp add: report_offline_result) (simp add: report_offline_def)
  from 1 2 3 4 5 show ?thesis by blast
qed

text \<open>
  C1 (as amended). A confirmed deletion removes the record; online it is only logged and
  \<open>localStorage\<close> is not written, offline the collection as it stands after the deletion is
  stored under \<open>localDiseases\<close> and nothing is logged. A valid add or edit is, online, only
  logged (\<open>localStorage\<close> is not written); offline it logs nothing and writes \<open>localStorage\<close>
  under the key \<open>localDiseases\<close> and no other key. A valid report is, online, logged and marked
  submitted, and \<open>localStorage\<close> is not written; offline it is refused with an alert, and
  nothing else changes.
\<close>

theorem local_first_store:
  "(page_diseases (handleDelete True i s) = filter (\<lambda>d. disease_id d \<noteq> i) (page_diseases s)
    \<and> (if isOnline (useNetworkStatus (network s))
       then storage (handleDelete True i s) = storage s
          \<and> console (handleDelete True i s) = console s @ [(''Deleting from server...'', JString i)]
       else storage (handleDelete True i s)
              = (storage s)(''localDiseases'' \<mapsto> diseases_json (page_diseases (handleDelete True i s)))
          \<and> console (handleDelete True i s) = console s))
   \<and> (trim (form_name (formData s)) \<noteq> [] \<and> trim (form_description (formData s)) \<noteq> [] \<longrightarrow>
       (if isOnline (useNetworkStatus (network s))
        then storage (update_handleSubmit now s) = storage s
           \<and> console (update_handleSubmit now s)
               = console s @ [(''Syncing with server...'', disease_json (newDisease now s))]
        else console (update_handleSubmit now s) = console s
           \<and> storage (update_handleSubmit now s) ''localDiseases'' \<noteq> None
           \<and> (\<forall>k. k = ''localDiseases'' \<or> storage (update_handleSubmit now s) k = storage s k)))
   \<and> (validateForm (report_formData r) = None \<longrightarrow>
       (if isOnline (useNetworkStatus (network r))
        then storage (report_handleSubmit now stamp r) = storage r
           \<and> submitted (report_handleSubmit now stamp r)
           \<and> console (report_handleSubmit now stamp r)
               = console r @ [(''Report submitted:'',
                    reportData (report_formData r) (images r) stamp now)]
        else report_handleSubmit now stamp r
               = r\<lparr>alerts := alerts r @ [''Internet connection required to submit reports'']\<rparr>))"
  using delete_effect [of i s] submit_effect [of s now] report_effect [of r now stamp]
  by blast

theorem local_first_store_witness:
  "storage (handleDelete True ''d3'' editor_offline) ''localDiseases'' = Some (JArray [])
   \<and> page_diseases (handleDelete True ''d3'' editor_offline) = []
   \<and> trim (form_name (formData editor_offline)) \<noteq> []
   \<and> trim (form_description (formData editor_offline)) \<noteq> []
   \<and> storage (update_handleSubmit 1718000000000 editor_offline) ''localDiseases'' \<noteq> None
   \<and> console (update_handleSubmit 1718000000000 editor_offline) = []
   \<and> validateForm (report_formData report_offline) = None
   \<and> storage (report_handleSubmit 1718000000000 ''2024-06-10T06:13:20.000Z'' report_offline)
       = Map.empty
   \<and> storage (report_handleSubmit 1718000000000 ''2024-06-10T06:13:20.000Z''
                (report_offline\<lparr>network := initial_cells\<rparr>)) = Map.empty
   \<and> submitted (report_handleSubmit 1718000000000 ''2024-06-10T06:13:20.000Z''
                (report_offline\<lparr>network := initial_cells\<rparr>))"
proof -
  have off: "\<not> isOnline (useNetworkStatus (network editor_offline))"
    "\<not> isOnline (useNetworkStatus (network report_offline))"
    using offline_not_online by (simp_all add: editor_offline_def report_offline_def)
  have on: "isOnline (useNetworkStatus (network (report_offline\<lparr>network := initial_cells\<rparr>)))"
    using online_initial by simp
  have v: "validateForm (report_formData report_offline) = None"
    "validateForm (report_formData (report_offline\<lparr>network := initial_cells\<rparr>)) = None"
    by (simp_all add: report_offline_def form_filled_valid)
  have e: "storage editor_offline = Map.empty" "console editor_offline = []"
    "page_diseases editor_offline = [brown_spot]" "disease_id brown_spot = ''d3''"
    "storage report_offline = Map.empty"
    by (simp_all add: editor_offline_def brown_spot_def report_offline_def)
  from local_first_store [of "''d3''" editor_offline 1718000000000 report_offline
      "''2024-06-10T06:13:20.000Z''"]
    local_first_store [of "''d3''" editor_offline 1718000000000
      "report_offline\<lparr>network := initial_cells\<rparr>" "''2024-06-10T06:13:20.000Z''"]
    off on v e form_example_ok
  show ?thesis by (simp add: diseases_json_def)
qed

section \<open>Recent translations: properties\<close>

lemma translate_example:
  "join '' '' (map (translate_word phrase_book) (split_ws (toLowerCase ''Rice  disease!'')))
     = ''bigas sakit!''"
  by code_simp

lemma trim_example: "trim ''Rice  disease!'' \<noteq> []"
  by code_simp

lemma split_examples:
  "split_ws '' a  b '' = [[], ''a'', ''b'', []]"
  "replace_str ''(rice)'' ''rice'' ''$&-$$'' = ''(rice-$)''"
  "replace_str ''abc'' ''b'' ''[$`|$1]'' = ''a[a|$1]c''"
  "replace_str ''abc'' ''b'' [CHR ''<'', CHR ''$'', CHR 0x27, CHR ''>''] = ''a<c>c''"
  "replace_str ''dont'' ''x'' ''y'' = ''dont''"
  by code_simp+

lemma translateText_unfold:
  "trim (inputText s) \<noteq> [] \<Longrightarrow>
   translateText s =
     s\<lparr>translatedText := join '' '' (map (translate_word (dictionary s)) (split_ws (toLowerCase (inputText s)))),
       recentTranslations :=
         \<lparr>english = inputText s,
          filipino = join '' '' (map (translate_word (dictionary s)) (split_ws (toLowerCase (inputText s))))\<rparr>
         # take 4 (recentTranslations s),
       storage := (storage s)(''recentTranslations'' \<mapsto>
         translations_json
           (\<lparr>english = inputText s,
             filipino = join '' '' (map (translate_word (dictionary s)) (split_ws (toLowerCase (inputText s))))\<rparr>
            # take 4 (recentTranslations s))),
       translating := False\<rparr>"
  by (simp add: translateText_def Let_def)

lemma translateText_inv: "recent_inv s \<Longrightarrow> recent_inv (translateText (s\<lparr>inputText := t\<rparr>))"
proof (cases "trim t = []")
  case True
  assume "recent_inv s"
  with True show ?thesis by (simp add: translateText_def recent_inv_def)
next
  case False
  then have "trim (inputText (s\<lparr>inputText := t\<rparr>)) \<noteq> []" by simp
  from translateText_unfold [OF this] show ?thesis by (simp add: recent_inv_def)
qed

lemma translate_all_inv: "recent_inv s \<Longrightarrow> recent_inv (translate_all s texts)"
  unfolding translate_all_def
proof (induction texts arbitrary: s)
  case Nil
  then show ?case by simp
next
  case (Cons t texts)
  from Cons.prems have "recent_inv (translateText (s\<lparr>inputText := t\<rparr>))"
    by (rule translateText_inv)
  then show ?case using Cons.IH by simp
qed

text \<open>
  C10. After a translation of a non-blank text, the list of recent translations starts with
  the translation just made, followed by the first four earlier entries, so it has at most
  five entries; \<open>localStorage\<close> holds its serialization under \<open>recentTranslations\<close>; and both
  stay so after any further sequence of translations.
\<close>

theorem recent_translations_bounded:
  assumes "trim (inputText s) \<noteq> []"
  shows "recentTranslations (translateText s)
           = \<lparr>english = inputText s, filipino = translatedText (translateText s)\<rparr>
             # take 4 (recentTranslations s)
     \<and> length (recentTranslations (translateText s)) \<le> 5
     \<and> storage (translateText s) ''recentTranslations''
           = Some (translations_json (recentTranslations (translateText s)))
     \<and> (\<forall>texts. length (recentTranslations (translate_all (translateText s) texts)) \<le> 5
           \<and> storage (translate_all (translateText s) texts) ''recentTranslations''
               = Some (translations_json (recentTranslations (translate_all (translateText s) texts))))"
proof -
  note u = translateText_unfold [OF assms]
  have 1: "recentTranslations (translateText s)
           = \<lparr>english = inputText s, filipino = translatedText (translateText s)\<rparr>
             # take 4 (recentTranslations s)"
    by (simp add: u)
  have 2: "length (recentTranslations (translateText s)) \<le> 5"
    by (simp add: u)
  have 3: "storage (translateText s) ''recentTranslations''
           = Some (translations_json (recentTranslations (translateText s)))"
    by (simp add: u)
  from 2 3 have "recent_inv (translateText s)" by (simp add: recent_inv_def)
  then have "\<And>texts. recent_inv (translate_all (translateText s) texts)"
    by (rule translate_all_inv)
  then have 4: "\<forall>texts. length (recentTranslations (translate_all (translateText s) texts)) \<le> 5
           \<and> storage (translate_all (translateText s) texts) ''recentTranslations''
               = Some (translations_json (recentTranslations (translate_all (translateText s) texts)))"
    by (simp add: recent_inv_def)
  from 1 2 3 4 show ?thesis by blast
qed

theorem recent_translations_bounded_witness:
  "trim (inputText translator) \<noteq> []
   \<and> recentTranslations (translateText translator)
       = \<lparr>english = ''Rice  disease!'', filipino = ''bigas sakit!''\<rparr> # take 4 five_recent
   \<and> length (recentTranslations (translateText translator)) = 5
   \<and> length (recentTranslations (translate_all (translateText translator) [''leaf'', '' '', ''rice''])) \<le> 5"
proof -
  have t: "trim (inputText translator) \<noteq> []"
    by (simp add: translator_def trim_example)
  have r: "translatedText (translateText translator) = ''bigas sakit!''"
    by (simp add: translateText_unfold [OF t]) (simp add: translator_def translate_example)
  have f: "inputText translator = ''Rice  disease!''" "recentTranslations translator = five_recent"
    by (simp_all add: translator_def)
  have l: "length five_recent = 5" by (simp add: five_recent_def)
  from recent_translations_bounded [OF t] t r f l show ?thesis by simp
qed

end
